theory Spec2Isabelle
  imports Main
begin

section \<open>Python values, exceptions and strings\<close>

text \<open>
  The service is Python. A Python \<open>str\<close> is modelled as a \<^typ>\<open>string\<close>, every
  \<^typ>\<open>char\<close> standing for the code point of the same number; Python integers are
  \<^typ>\<open>int\<close>. A value that may or may not be a \<open>str\<close> (the source tests
  \<open>isinstance(v, str)\<close>) is a \<open>pyval\<close>: either a string or some other object.
  A raised exception is the left summand of a result; \<open>str(exc)\<close> is its message.
\<close>

datatype exn = ValueError string | Exception string

datatype 'a pyval = Str string | Obj 'a

fun str_of_exn :: "exn \<Rightarrow> string" where
  "str_of_exn (ValueError m) = m"
| "str_of_exn (Exception m) = m"

text \<open>\<open>s.replace(c, "")\<close> for a one-character \<open>c\<close>: every occurrence is removed.\<close>

definition str_remove :: "char \<Rightarrow> string \<Rightarrow> string" where
  "str_remove c s = filter (\<lambda>x. x \<noteq> c) s"

section \<open>The standard library: \<open>datetime.strptime(el, "%d.%m.%Y")\<close> and \<open>strftime("%d%m%y")\<close>\<close>

text \<open>
  CPython's \<open>_strptime\<close> turns the format \<open>%d.%m.%Y\<close> into the regular expression
  \<^verbatim>\<open>(?P<d>3[0-1]|[1-2]\d|0[1-9]|[1-9]| [1-9])\.(?P<m>1[0-2]|0[1-9]|[1-9])\.(?P<Y>\d\d\d\d)\<close>,
  matches it at the start of the token, raises \<open>ValueError\<close> when it does not match or when
  text remains after the match, converts the three groups with \<open>int\<close> and builds a
  \<open>date\<close>, whose constructor raises \<open>ValueError\<close> for a year outside 1..9999, a month
  outside 1..12 or a day the month does not have.

  A regular expression is a function from the text to the list of its matches (the matched
  text and the rest), in the order in which a backtracking matcher tries them, so that the
  head of the list is the match \<open>re.match\<close> returns. The class \<^verbatim>\<open>\d\<close> is the ten
  digits \<open>0\<close> to \<open>9\<close>, the only decimal digits among the code points a
  \<^typ>\<open>char\<close> stands for; the flag \<open>IGNORECASE\<close> changes nothing for digits, dots
  and blanks.
\<close>

type_synonym matcher = "string \<Rightarrow> (string \<times> string) list"

definition re_set :: "string \<Rightarrow> matcher" where
  "re_set cs s = (case s of [] \<Rightarrow> [] | c # r \<Rightarrow> if c \<in> set cs then [([c], r)] else [])"

definition re_seq :: "matcher \<Rightarrow> matcher \<Rightarrow> matcher" where
  "re_seq p q s = concat (map (\<lambda>(a, r). map (\<lambda>(b, r'). (a @ b, r')) (q r)) (p s))"

definition re_alt :: "matcher \<Rightarrow> matcher \<Rightarrow> matcher" where
  "re_alt p q s = p s @ q s"

definition digits :: string where
  "digits = ''0123456789''"

definition digits19 :: string where
  "digits19 = ''123456789''"

definition directive_d :: matcher where
  "directive_d =
     re_alt (re_seq (re_set ''3'') (re_set ''01''))
    (re_alt (re_seq (re_set ''12'') (re_set digits))
    (re_alt (re_seq (re_set ''0'') (re_set digits19))
    (re_alt (re_set digits19)
            (re_seq (re_set '' '') (re_set digits19)))))"

definition directive_m :: matcher where
  "directive_m =
     re_alt (re_seq (re_set ''1'') (re_set ''012''))
    (re_alt (re_seq (re_set ''0'') (re_set digits19))
            (re_set digits19))"

definition directive_Y :: matcher where
  "directive_Y =
     re_seq (re_set digits) (re_seq (re_set digits) (re_seq (re_set digits) (re_set digits)))"

text \<open>A group followed by the escaped dot \<^verbatim>\<open>\.\<close> of the format: the text is the group's.\<close>

definition then_dot :: "matcher \<Rightarrow> matcher" where
  "then_dot p s = [(a, r2). (a, r1) \<leftarrow> p s, (dot, r2) \<leftarrow> re_set ''.'' r1]"

text \<open>The matches of the whole pattern: the three groups and the unconverted rest.\<close>

definition format_regex :: "string \<Rightarrow> (string \<times> string \<times> string \<times> string) list" where
  "format_regex s =
     [(d, m, y, rest).
        (d, r2) \<leftarrow> then_dot directive_d s,
        (m, r4) \<leftarrow> then_dot directive_m r2,
        (y, rest) \<leftarrow> directive_Y r4]"

text \<open>
  \<open>int(text)\<close> on the text of a group: surrounding blanks are stripped and the decimal
  digits read; anything else raises \<open>ValueError\<close>.
\<close>

definition digit_val :: "char \<Rightarrow> int" where
  "digit_val c = of_char c - 48"

definition strip :: "string \<Rightarrow> string" where
  "strip s = rev (dropWhile (\<lambda>c. c = CHR '' '') (rev (dropWhile (\<lambda>c. c = CHR '' '') s)))"

definition py_int :: "string \<Rightarrow> exn + int" where
  "py_int s =
     (let t = strip s in
      if t \<noteq> [] \<and> list_all (\<lambda>c. c \<in> set digits) t
      then Inr (foldl (\<lambda>n c. 10 * n + digit_val c) 0 t)
      else Inl (ValueError ''invalid literal for int() with base 10''))"

record date =
  year :: int
  month :: int
  day :: int

definition is_leap :: "int \<Rightarrow> bool" where
  "is_leap y = (y mod 4 = 0 \<and> (y mod 100 \<noteq> 0 \<or> y mod 400 = 0))"

definition days_in_month :: "int \<Rightarrow> int \<Rightarrow> int" where
  "days_in_month y m =
     (if m = 2 \<and> is_leap y then 29
      else [31, 28, 31, 30, 31, 30, 31, 31, 30, 31, 30, 31] ! nat (m - 1))"

definition datetime_date :: "int \<Rightarrow> int \<Rightarrow> int \<Rightarrow> exn + date" where
  "datetime_date y m d =
     (if \<not> (1 \<le> y \<and> y \<le> 9999) then Inl (ValueError ''year is out of range'')
      else if \<not> (1 \<le> m \<and> m \<le> 12) then Inl (ValueError ''month must be in 1..12'')
      else if \<not> (1 \<le> d \<and> d \<le> days_in_month y m)
        then Inl (ValueError ''day is out of range for month'')
      else Inr \<lparr>year = y, month = m, day = d\<rparr>)"

definition strptime :: "string \<Rightarrow> exn + date" where
  "strptime data_string =
     (case format_regex data_string of
        [] \<Rightarrow> Inl (ValueError ''time data does not match format'')
      | (d, m, y, rest) # others \<Rightarrow>
          if rest \<noteq> [] then Inl (ValueError ''unconverted data remains'')
          else (case py_int d of Inl e \<Rightarrow> Inl e | Inr dd \<Rightarrow>
               (case py_int m of Inl e \<Rightarrow> Inl e | Inr mm \<Rightarrow>
               (case py_int y of Inl e \<Rightarrow> Inl e | Inr yy \<Rightarrow>
                  datetime_date yy mm dd))))"

text \<open>\<open>dt.strftime("%d%m%y")\<close>: day, month and year modulo 100, two digits each.\<close>

definition digit_char :: "int \<Rightarrow> char" where
  "digit_char n = digits ! nat n"

definition pad2 :: "int \<Rightarrow> string" where
  "pad2 n = [digit_char (n div 10 mod 10), digit_char (n mod 10)]"

definition strftime :: "date \<Rightarrow> string" where
  "strftime dt = pad2 (day dt) @ pad2 (month dt) @ pad2 (year dt mod 100)"

section \<open>\<open>_convert_dates\<close>\<close>

text \<open>
  The loop of \<open>_convert_dates\<close> with its accumulator \<open>out\<close>. Only \<open>ValueError\<close> is
  caught; any other exception of \<open>strptime\<close> would leave the function.
\<close>

fun convert_dates_loop :: "'a pyval list \<Rightarrow> 'a pyval list \<Rightarrow> exn + 'a pyval list" where
  "convert_dates_loop out [] = Inr out"
| "convert_dates_loop out (Obj x # elements) = convert_dates_loop (out @ [Obj x]) elements"
| "convert_dates_loop out (Str el # elements) =
     (case strptime el of
        Inr dt \<Rightarrow> convert_dates_loop (out @ [Str (strftime dt)]) elements
      | Inl (ValueError msg) \<Rightarrow> convert_dates_loop (out @ [Str el]) elements
      | Inl (Exception msg) \<Rightarrow> Inl (Exception msg))"

definition convert_dates :: "'a pyval list \<Rightarrow> exn + 'a pyval list" where
  "convert_dates elements = convert_dates_loop [] elements"

text \<open>
  What one turn of that loop appends for an element. \<open>strptime\<close> raises nothing but
  \<open>ValueError\<close>, so the loop is a map of this function.
\<close>

fun convert_element :: "'a pyval \<Rightarrow> 'a pyval" where
  "convert_element (Obj x) = Obj x"
| "convert_element (Str el) =
     (case strptime el of Inr dt \<Rightarrow> Str (strftime dt) | Inl e \<Rightarrow> Str el)"

section \<open>Dictionaries\<close>

text \<open>
  A \<open>dict\<close> keeps its keys in insertion order: it is an association list with distinct
  keys. \<open>dict_set\<close> is \<open>d[k] = v\<close>: an existing key keeps its place, a new key goes to
  the end. \<open>dict_unpack\<close> is the display \<open>{**a, **b}\<close>.
\<close>

type_synonym 'a dict = "(string \<times> 'a pyval) list"

fun dict_set :: "string \<Rightarrow> 'v \<Rightarrow> (string \<times> 'v) list \<Rightarrow> (string \<times> 'v) list" where
  "dict_set k v [] = [(k, v)]"
| "dict_set k v ((k', v') # d) =
     (if k' = k then (k', v) # d else (k', v') # dict_set k v d)"

definition dict_unpack :: "(string \<times> 'v) list \<Rightarrow> (string \<times> 'v) list \<Rightarrow> (string \<times> 'v) list" where
  "dict_unpack a b = foldl (\<lambda>d (k, v). dict_set k v d) [] (a @ b)"

section \<open>The environment\<close>

text \<open>
  The detector, the reader, the decoders and the image library are capabilities of the
  environment, given as functions; each may raise. \<open>get_yolo_model()\<close> and
  \<open>get_ocr_reader()\<close> hand out the process-wide instances, which are taken as loaded.
  An anchor is a box \<open>(x, y, w, h)\<close>; a recognised token \<open>det\<close> is the pair of
  \<open>det[0]\<close> and \<open>det[1]\<close> (the confidence \<open>det[2]\<close> is never read).
  \<^item> \<open>crop img top bottom left right\<close> is \<open>img[top:bottom, left:right]\<close>,
    \<open>img_size\<close> is \<open>.size\<close> and \<open>ndim img\<close> is \<open>len(img.shape)\<close>;
  \<^item> \<open>yolo\<close> is the call \<open>model(image)\<close>, reduced to the boxes it returns (possibly
    \<open>None\<close>), and \<open>draw_detections\<close> the overlay drawn after that call;
  \<^item> \<open>readtext\<close> is \<open>reader.readtext\<close>, \<open>decode\<close> is \<open>pyzbar.decode\<close>, each symbol
    given by what \<open>.data.decode("utf-8")\<close> yields for it;
  \<^item> \<open>imdecode\<close> is \<open>cv2.imdecode\<close> and \<open>detectMultiScale\<close> the face cascade;
  \<^item> \<open>csv_write path rows\<close> opens the file for writing and writes the rows; whatever it
    raises is caught and logged by the caller, so it is a function on the state of the
    file system.
\<close>

type_synonym box = "int \<times> int \<times> int \<times> int"

record ('img, 'loc, 'bx, 'a, 'w) caps =
  crop :: "'img \<Rightarrow> int \<Rightarrow> int \<Rightarrow> int \<Rightarrow> int \<Rightarrow> 'img"
  img_size :: "'img \<Rightarrow> nat"
  ndim :: "'img \<Rightarrow> nat"
  cvtColor :: "'img \<Rightarrow> exn + 'img"
  yolo :: "'img \<Rightarrow> exn + 'bx list option"
  draw_detections :: "'img \<Rightarrow> exn + 'img"
  readtext :: "'img \<Rightarrow> exn + ('loc \<times> string) list"
  decode :: "'img \<Rightarrow> exn + (exn + string) list"
  imdecode :: "nat list \<Rightarrow> exn + 'img option"
  detectMultiScale :: "'img \<Rightarrow> exn + box list"
  csv_write :: "string \<Rightarrow> 'a pyval list list \<Rightarrow> 'w \<Rightarrow> 'w"

section \<open>\<open>image_utils\<close>\<close>

text \<open>An uploaded stream is what its \<open>read()\<close> gives: the bytes, or an exception.\<close>

type_synonym stream = "exn + nat list"

definition read_image_from_stream ::
  "('img, 'loc, 'bx, 'a, 'w) caps \<Rightarrow> stream \<Rightarrow> 'img option" where
  "read_image_from_stream caps stream =
     (case stream of
        Inl e \<Rightarrow> None
      | Inr bytes \<Rightarrow>
          if bytes = [] then None
          else (case imdecode caps bytes of Inl e \<Rightarrow> None | Inr img \<Rightarrow> img))"

definition to_grayscale :: "('img, 'loc, 'bx, 'a, 'w) caps \<Rightarrow> 'img \<Rightarrow> exn + 'img" where
  "to_grayscale caps img = (if ndim caps img = 2 then Inr img else cvtColor caps img)"

section \<open>\<open>ocr_service\<close>: regions of interest\<close>

definition COMMON_FRONT :: "string list" where
  "COMMON_FRONT =
     [''/'', ''Pakistan'', ''pakistan'', ''Name'', ''Father Name'', ''Gender'',
      ''Country of Stay'', ''Identity Number'', ''Date of Issue'', ''Date of Expiry'',
      ''Signature'', ''PAKISTAN'', ''ISLAMIC REpUBLIC OF PAKISTAN'']"

definition COMMON_LOWER :: "string list" where
  "COMMON_LOWER =
     [''Date of Expiry'', ''United Arab Emirates'', ''Date'', ''of Expiry'',
      ''Date of Birth'', ''/'', ''Pakistan'']"

record window =
  left_x :: int
  top_y :: int
  right_x :: int
  bottom_y :: int

text \<open>The window of \<open>ocr_front_upper\<close> (its top is called \<open>left_y\<close> there).\<close>

definition upper_window :: "box \<Rightarrow> window" where
  "upper_window face =
     (case face of (x, y, w, h) \<Rightarrow>
        \<lparr>left_x = max 0 (x - 410), top_y = max 0 (y - 72),
         right_x = max 0 (x - 15), bottom_y = y + h + 40\<rparr>)"

text \<open>The window of \<open>ocr_front_lower\<close>.\<close>

definition lower_window :: "box \<Rightarrow> window" where
  "lower_window face =
     (case face of (x, y, w, h) \<Rightarrow>
        \<lparr>left_x = max 0 (x - 410), top_y = y + 110,
         right_x = max 0 (x - 15), bottom_y = y + h + 135\<rparr>)"

definition crop_window :: "('img, 'loc, 'bx, 'a, 'w) caps \<Rightarrow> 'img \<Rightarrow> window \<Rightarrow> 'img" where
  "crop_window caps img win =
     crop caps img (top_y win) (bottom_y win) (left_x win) (right_x win)"

text \<open>
  The loop over \<open>faces\<close> in \<open>ocr_front_upper\<close>: \<open>upper_roi\<close> starts as \<open>None\<close> and is
  assigned in every turn.
\<close>

definition upper_roi :: "('img, 'loc, 'bx, 'a, 'w) caps \<Rightarrow> 'img \<Rightarrow> box list \<Rightarrow> 'img option" where
  "upper_roi caps front_image faces =
     foldl (\<lambda>roi face. Some (crop_window caps front_image (upper_window face))) None faces"

text \<open>
  The region of \<open>ocr_front_lower\<close>, cut around \<open>faces[0]\<close>; the function has returned
  before when \<open>faces\<close> is empty.
\<close>

fun lower_roi :: "('img, 'loc, 'bx, 'a, 'w) caps \<Rightarrow> 'img \<Rightarrow> box list \<Rightarrow> 'img option" where
  "lower_roi caps front_gray [] = None"
| "lower_roi caps front_gray (face # others) =
     Some (crop_window caps front_gray (lower_window face))"

section \<open>\<open>ocr_service\<close>: field extraction\<close>

text \<open>
  The comprehension \<open>[(det[0], det[1].replace("-", "")) for det in result if det[1] not in
  common]\<close>, with either denylist.
\<close>

definition filtered :: "string list \<Rightarrow> ('loc \<times> string) list \<Rightarrow> ('loc \<times> string) list" where
  "filtered common result =
     map (\<lambda>det. (fst det, str_remove CHR ''-'' (snd det)))
         (filter (\<lambda>det. snd det \<notin> set common) result)"

text \<open>
  \<open>ocr_front_upper\<close>. Everything from the call of the detector on is inside
  \<open>try\<close>; any exception is logged and gives \<open>({}, [])\<close>.
\<close>

definition ocr_front_upper ::
  "('img, 'loc, 'bx, 'a, 'w) caps \<Rightarrow> 'img \<Rightarrow> box list \<Rightarrow> 'a dict \<times> string list" where
  "ocr_front_upper caps front_image faces =
     (case yolo caps front_image of
        Inl e \<Rightarrow> ([], [])
      | Inr None \<Rightarrow> ([], [])
      | Inr (Some boxes) \<Rightarrow>
          if length boxes = 0 then ([], [])
          else if length faces = 0 then ([], [])
          else (case upper_roi caps front_image faces of
                  None \<Rightarrow> ([], [])
                | Some roi \<Rightarrow>
                    if img_size caps roi = 0 then ([], [])
                    else (case to_grayscale caps roi of
                            Inl e \<Rightarrow> ([], [])
                          | Inr gray_roi \<Rightarrow>
                              (case readtext caps gray_roi of
                                 Inl e \<Rightarrow> ([], [])
                               | Inr result \<Rightarrow>
                                   (let texts = map snd (filtered COMMON_FRONT result);
                                        data =
                                          (if length texts \<ge> 2
                                           then [(''Name'', Str (texts ! 0)),
                                                 (''Guardian Name'', Str (texts ! 1))]
                                           else if length texts = 1
                                           then [(''Name'', Str (texts ! 0))]
                                           else [])
                                    in (data, texts))))))"

text \<open>The search for the CNIC-shaped string, with its \<open>break\<close>.\<close>

fun find_cnic :: "('loc \<times> string) list \<Rightarrow> string option" where
  "find_cnic [] = None"
| "find_cnic (det # result) =
     (let raw = snd det in
      if CHR ''-'' \<in> set raw \<and> length raw = 15 then Some (str_remove CHR ''-'' raw)
      else find_cnic result)"

text \<open>
  \<open>ocr_front_lower\<close>, all of it inside \<open>try\<close>: any exception gives
  \<open>(None, {}, [])\<close>.
\<close>

definition ocr_front_lower ::
  "('img, 'loc, 'bx, 'a, 'w) caps \<Rightarrow> 'img \<Rightarrow> box list
     \<Rightarrow> string option \<times> 'a dict \<times> 'a pyval list" where
  "ocr_front_lower caps front_gray faces =
     (case lower_roi caps front_gray faces of
        None \<Rightarrow> (None, [], [])
      | Some roi \<Rightarrow>
          if img_size caps roi = 0 then (None, [], [])
          else (case readtext caps roi of
                  Inl e \<Rightarrow> (None, [], [])
                | Inr result \<Rightarrow>
                    (case convert_dates (map Str (map snd (filtered COMMON_LOWER result))) of
                       Inl e \<Rightarrow> (None, [], [])
                     | Inr texts \<Rightarrow>
                         (let data =
                                (if length texts \<ge> 4
                                 then [(''Id Card Number'', texts ! 0),
                                       (''Date Of Birth'', texts ! 1),
                                       (''Date Of Issue'', texts ! 2),
                                       (''Date Of Expiry'', texts ! 3)]
                                 else []);
                              cnic = find_cnic result
                          in (cnic, data, texts)))))"

text \<open>\<open>ocr_back_qr\<close>: \<open>raw[12:25]\<close> of the first decoded symbol.\<close>

definition ocr_back_qr :: "('img, 'loc, 'bx, 'a, 'w) caps \<Rightarrow> 'img \<Rightarrow> string option" where
  "ocr_back_qr caps back_roi =
     (case yolo caps back_roi of
        Inl e \<Rightarrow> None
      | Inr boxes \<Rightarrow>
          (case to_grayscale caps back_roi of
             Inl e \<Rightarrow> None
           | Inr gray \<Rightarrow>
               (case decode caps gray of
                  Inl e \<Rightarrow> None
                | Inr [] \<Rightarrow> None
                | Inr (Inl e # others) \<Rightarrow> None
                | Inr (Inr raw # others) \<Rightarrow> Some (take 13 (drop 12 raw)))))"

definition detect_card_regions ::
  "('img, 'loc, 'bx, 'a, 'w) caps \<Rightarrow> 'img \<Rightarrow> 'img \<Rightarrow> exn + ('img \<times> 'img)" where
  "detect_card_regions caps front_gray back_image =
     (case yolo caps front_gray of Inl e \<Rightarrow> Inl e | Inr boxes \<Rightarrow>
     (case draw_detections caps front_gray of Inl e \<Rightarrow> Inl e | Inr front_roi \<Rightarrow>
     (case yolo caps back_image of Inl e \<Rightarrow> Inl e | Inr boxes' \<Rightarrow>
     (case draw_detections caps back_image of Inl e \<Rightarrow> Inl e | Inr back_roi \<Rightarrow>
        Inr (back_roi, front_roi)))))"

section \<open>\<open>ocr_service\<close>: reconciliation and merge\<close>

fun validate_cnic :: "string option \<Rightarrow> string option \<Rightarrow> bool" where
  "validate_cnic None back_cnic = False"
| "validate_cnic (Some front) None = False"
| "validate_cnic (Some front) (Some back) = (front = back)"

text \<open>
  The loop \<open>for key in list(merged)\<close>: a value that is a \<open>str\<close> loses its dots. A key
  of the list is a key of the dictionary, so \<open>merged[key]\<close> does not raise.
\<close>

definition sanitise_key :: "'a dict \<Rightarrow> string \<Rightarrow> 'a dict" where
  "sanitise_key merged key =
     (case map_of merged key of
        Some (Str s) \<Rightarrow> dict_set key (Str (str_remove CHR ''.'' s)) merged
      | other \<Rightarrow> merged)"

text \<open>
  \<open>merge_card_data\<close>. An argument that is \<open>None\<close> or empty counts as the empty
  dictionary (\<open>upper or {}\<close>); the file is written when \<open>csv_path\<close> is a non-empty
  string. The function returns the merged dictionary and leaves the file system changed.
\<close>

definition or_empty :: "'a dict option \<Rightarrow> 'a dict" where
  "or_empty d = (case d of None \<Rightarrow> [] | Some items \<Rightarrow> items)"

definition merge_card_data ::
  "('img, 'loc, 'bx, 'a, 'w) caps \<Rightarrow> 'a dict option \<Rightarrow> 'a dict option \<Rightarrow> string list
     \<Rightarrow> 'a pyval list \<Rightarrow> string option \<Rightarrow> 'w \<Rightarrow> 'a dict \<times> 'w" where
  "merge_card_data caps upper lower raw_upper raw_lower csv_path world =
     (let merged0 = dict_unpack (or_empty upper) (or_empty lower);
          merged = foldl sanitise_key merged0 (map fst merged0)
      in (case csv_path of
            None \<Rightarrow> (merged, world)
          | Some path \<Rightarrow>
              if path = [] then (merged, world)
              else (merged,
                    csv_write caps path
                      ([Str ''key'', Str ''value''] # map (\<lambda>(k, v). [Str k, v]) merged)
                      world)))"

text \<open>What the loop does to one value.\<close>

fun sanitise :: "'a pyval \<Rightarrow> 'a pyval" where
  "sanitise (Str s) = Str (str_remove CHR ''.'' s)"
| "sanitise (Obj x) = Obj x"

section \<open>\<open>views\<close>: the pipeline\<close>

datatype 'a payload =
    Identifiers "string option" "string option"
  | Card "'a dict" "string option" "string option" "string list" "'a pyval list"

record 'a envelope_t =
  success :: bool
  message :: string
  payload :: "'a payload option"
  errors :: "string list"

text \<open>\<open>_envelope\<close>; \<open>errors or []\<close> is the list itself, \<open>None\<close> being the empty list.\<close>

definition envelope ::
  "bool \<Rightarrow> string \<Rightarrow> 'a payload option \<Rightarrow> string list option \<Rightarrow> 'a envelope_t" where
  "envelope succ msg dat errs =
     \<lparr>success = succ, message = msg, payload = dat,
      errors = (case errs of None \<Rightarrow> [] | Some es \<Rightarrow> es)\<rparr>"

text \<open>A \<open>Response\<close> is the envelope and the HTTP status.\<close>

type_synonym 'a response = "'a envelope_t \<times> nat"

record request =
  FILES :: "string \<rightharpoonup> stream"

type_synonym 'a ocr_results =
  "'a dict \<times> string list \<times> string option \<times> 'a dict \<times> 'a pyval list \<times> string option"

text \<open>
  The body of \<open>id_detector\<close> down to the three extractions (the sections
  \<^emph>\<open>validate uploads\<close>, \<^emph>\<open>face detection\<close>, \<^emph>\<open>card region detection\<close> and
  \<^emph>\<open>OCR\<close>): an exception, an early response, or the six extracted values
  \<open>upper_data, upper_raw, cnic_front, lower_data, lower_raw, cnic_back\<close>.
\<close>

definition id_detector_ocr ::
  "('img, 'loc, 'bx, 'a, 'w) caps \<Rightarrow> request \<Rightarrow> exn + ('a response + 'a ocr_results)" where
  "id_detector_ocr caps req =
     (case (FILES req ''front_image'', FILES req ''back_image'') of
        (Some front_stream, Some back_stream) \<Rightarrow>
          (case (read_image_from_stream caps front_stream,
                 read_image_from_stream caps back_stream) of
             (Some front_image, Some back_image) \<Rightarrow>
               (case to_grayscale caps front_image of Inl e \<Rightarrow> Inl e | Inr front_gray \<Rightarrow>
               (case detectMultiScale caps front_gray of Inl e \<Rightarrow> Inl e | Inr faces \<Rightarrow>
                  if length faces = 0
                  then Inr (Inl (envelope False ''No face detected on the front image'' None
                                   (Some [''no_face_detected'']), 422))
                  else
               (case detect_card_regions caps front_gray back_image of
                  Inl e \<Rightarrow> Inl e
                | Inr (back_roi, front_roi) \<Rightarrow>
                    (let (upper_data, upper_raw) = ocr_front_upper caps front_image faces;
                         (cnic_front, lower_data, lower_raw) =
                            ocr_front_lower caps front_gray faces;
                         cnic_back = ocr_back_qr caps back_roi
                     in Inr (Inr (upper_data, upper_raw, cnic_front,
                                  lower_data, lower_raw, cnic_back))))))
           | other \<Rightarrow>
               Inr (Inl (envelope False ''Unable to decode one or both uploaded images'' None
                           (Some [''invalid_image'']), 400)))
      | other \<Rightarrow>
          Inr (Inl (envelope False
                      (''Missing required files: 'front_image' and 'back_image'' @ [CHR 0x27]) None
                      (Some [''missing_files'']), 400)))"

text \<open>
  \<open>id_detector\<close>: the response and the file system after the request. The sections
  \<^emph>\<open>CNIC cross-validation\<close> and \<^emph>\<open>merge and respond\<close> follow the extraction; an
  exception anywhere becomes the response 500 with \<open>str(exc)\<close>.
\<close>

definition id_detector ::
  "('img, 'loc, 'bx, 'a, 'w) caps \<Rightarrow> request \<Rightarrow> 'w \<Rightarrow> 'a response \<times> 'w" where
  "id_detector caps req world =
     (case id_detector_ocr caps req of
        Inl exc \<Rightarrow>
          ((envelope False ''Internal server error'' None (Some [str_of_exn exc]), 500), world)
      | Inr (Inl early) \<Rightarrow> (early, world)
      | Inr (Inr (upper_data, upper_raw, cnic_front, lower_data, lower_raw, cnic_back)) \<Rightarrow>
          if \<not> validate_cnic cnic_front cnic_back
          then ((envelope False ''Front and back CNIC numbers do not match''
                   (Some (Identifiers cnic_front cnic_back)) (Some [''cnic_mismatch'']), 406),
                world)
          else (let (merged, world') =
                      merge_card_data caps (Some upper_data) (Some lower_data)
                        upper_raw lower_raw (Some ''IdCardData.csv'') world
                in ((envelope True ''ID card processed successfully''
                       (Some (Card merged cnic_front cnic_back upper_raw lower_raw)) None, 200),
                    world')))"

section \<open>A concrete environment\<close>

text \<open>
  An instance of the capabilities, for evaluating the pipeline: an image is the rectangle
  \<open>(top, bottom, left, right)\<close> of the photograph it shows, cropping cuts the rectangle
  (indices are not negative here), the reader finds the name lines in a region that starts
  above row 100 and the number and date lines below, and the decoder returns one payload.
\<close>

type_synonym demo_img = "int \<times> int \<times> int \<times> int"

definition demo_crop :: "demo_img \<Rightarrow> int \<Rightarrow> int \<Rightarrow> int \<Rightarrow> int \<Rightarrow> demo_img" where
  "demo_crop img t b l r =
     (case img of (t0, b0, l0, r0) \<Rightarrow>
        (min (t0 + t) b0, min (t0 + b) b0, min (l0 + l) r0, min (l0 + r) r0))"

definition demo_size :: "demo_img \<Rightarrow> nat" where
  "demo_size img = (case img of (t0, b0, l0, r0) \<Rightarrow> nat (b0 - t0) * nat (r0 - l0))"

definition demo_readtext :: "demo_img \<Rightarrow> exn + (unit \<times> string) list" where
  "demo_readtext img =
     (case img of (t0, b0, l0, r0) \<Rightarrow>
        if t0 < 100 then Inr [((), ''Name''), ((), ''Ali''), ((), ''Father Name''), ((), ''Ahmed'')]
        else Inr [((), ''Date of Birth''), ((), ''12345-1234567-1''), ((), ''01.02.1990''),
                  ((), ''01.01.2020''), ((), ''01.01.2030'')])"

definition demo_caps ::
  "string \<Rightarrow> (demo_img, unit, unit, unit, (string \<times> unit pyval list list) list) caps" where
  "demo_caps qr =
     \<lparr>crop = demo_crop, img_size = demo_size, ndim = (\<lambda>img. 2), cvtColor = Inr,
      yolo = (\<lambda>img. Inr (Some [()])), draw_detections = Inr,
      readtext = demo_readtext, decode = (\<lambda>img. Inr [Inr qr]),
      imdecode = (\<lambda>bytes. Inr (Some (0, 400, 0, 600))),
      detectMultiScale = (\<lambda>img. Inr [(450, 80, 60, 60)]),
      csv_write = (\<lambda>path rows world. (path, rows) # world)\<rparr>"

definition demo_request :: request where
  "demo_request = \<lparr>FILES = [''front_image'' \<mapsto> Inr [1], ''back_image'' \<mapsto> Inr [2]]\<rparr>"

section \<open>Date normalisation never fails and keeps positions\<close>

lemma py_int_raises: "py_int s = Inl e \<Longrightarrow> \<exists>m. e = ValueError m"
  by (auto simp: py_int_def Let_def split: if_splits)

lemma datetime_date_raises: "datetime_date y m d = Inl e \<Longrightarrow> \<exists>msg. e = ValueError msg"
  by (auto simp: datetime_date_def split: if_splits)

lemma strptime_raises: "strptime s = Inl e \<Longrightarrow> \<exists>m. e = ValueError m"
  unfolding strptime_def
  by (auto split: list.splits if_splits sum.splits dest: py_int_raises datetime_date_raises)

lemma convert_dates_loop_map:
  "convert_dates_loop out elements = Inr (out @ map convert_element elements)"
proof (induction out elements rule: convert_dates_loop.induct)
  case (1 out)
  show ?case by simp
next
  case (2 out x elements)
  then show ?case by simp
next
  case (3 out el elements)
  show ?case
  proof (cases "strptime el")
    case (Inl e)
    then obtain m where e: "e = ValueError m" using strptime_raises by blast
    from 3(1)[OF Inl e] Inl e show ?thesis by simp
  next
    case (Inr dt)
    with 3(2) show ?thesis by simp
  qed
qed

lemma convert_dates_map: "convert_dates elements = Inr (map convert_element elements)"
  by (simp add: convert_dates_def convert_dates_loop_map)

text \<open>
  Claim C10. For every input list, \<open>_convert_dates\<close> returns (it raises nothing) a list
  of the same length, in which the element at each position comes from the input element
  at that position alone: an element that is not a string stands there unchanged, and a
  string stands there either rewritten by \<open>strftime\<close>, when \<open>strptime\<close> accepts it, or
  unchanged. So the number and the order of the tokens are kept: the result for a list
  made of two parts is the result for the first part followed by the result for the second.
\<close>

theorem convert_dates_preserves_positions:
  "\<exists>out. convert_dates elements = Inr out \<and> length out = length elements \<and>
     (\<forall>i < length elements.
        (\<forall>x. elements ! i = Obj x \<longrightarrow> out ! i = Obj x) \<and>
        (\<forall>el. elements ! i = Str el \<longrightarrow>
           out ! i = (case strptime el of Inr dt \<Rightarrow> Str (strftime dt) | Inl e \<Rightarrow> Str el))) \<and>
     (\<forall>xs ys. elements = xs @ ys \<longrightarrow>
        (\<exists>out_xs out_ys. convert_dates xs = Inr out_xs \<and> convert_dates ys = Inr out_ys
           \<and> out = out_xs @ out_ys))"
  by (simp add: convert_dates_map)

theorem convert_dates_preserves_positions_witness:
  "\<exists>out. convert_dates [Str ''01.02.2030'', Obj (7::nat), Str ''hello''] = Inr out
     \<and> length out = 3 \<and> out ! 0 = Str ''010230'' \<and> out ! 1 = Obj 7 \<and> out ! 2 = Str ''hello''"
proof -
  let ?els = "[Str ''01.02.2030'', Obj (7::nat), Str ''hello'']"
  obtain out where
    r: "convert_dates ?els = Inr out"
    and l: "length out = length ?els"
    and p: "\<forall>i < length ?els.
              (\<forall>x. ?els ! i = Obj x \<longrightarrow> out ! i = Obj x) \<and>
              (\<forall>el. ?els ! i = Str el \<longrightarrow>
                 out ! i = (case strptime el of Inr dt \<Rightarrow> Str (strftime dt) | Inl e \<Rightarrow> Str el))"
    using convert_dates_preserves_positions [of ?els] by blast
  have d: "(case strptime ''01.02.2030'' of Inr dt \<Rightarrow> Str (strftime dt) | Inl e \<Rightarrow> Str ''01.02.2030'')
             = (Str ''010230'' :: nat pyval)"
    by code_simp
  have h: "(case strptime ''hello'' of Inr dt \<Rightarrow> Str (strftime dt) | Inl e \<Rightarrow> Str ''hello'')
             = (Str ''hello'' :: nat pyval)"
    by code_simp
  from p have "out ! 0 = (case strptime ''01.02.2030'' of Inr dt \<Rightarrow> Str (strftime dt)
                          | Inl e \<Rightarrow> Str ''01.02.2030'')"
    by simp
  then have 0: "out ! 0 = Str ''010230''" by (simp only: d)
  from p have 1: "out ! 1 = Obj 7" by simp
  from p have "out ! 2 = (case strptime ''hello'' of Inr dt \<Rightarrow> Str (strftime dt)
                          | Inl e \<Rightarrow> Str ''hello'')"
    by simp
  then have 2: "out ! 2 = Str ''hello''" by (simp only: h)
  from r l 0 1 2 show ?thesis by simp
qed

section \<open>Reconciliation\<close>

text \<open>
  Claim C1. \<open>validate_cnic\<close> is true exactly when both identifiers are present and are
  the same string; an absent identifier or two different strings give false.
\<close>

theorem validate_cnic_iff:
  "validate_cnic frontId backId \<longleftrightarrow> (\<exists>s. frontId = Some s \<and> backId = Some s)"
  by (cases frontId; cases backId) auto

section \<open>Regions of interest\<close>

text \<open>
  Claim C8. For an anchor \<open>(x, y, w, h)\<close> with \<open>h \<le> 70\<close> the two windows do not
  overlap: the upper window ends at \<open>y + h + 40\<close>, not below the row \<open>y + 110\<close> where
  the lower window starts.
\<close>

theorem windows_do_not_overlap:
  "h \<le> 70 \<Longrightarrow> bottom_y (upper_window (x, y, w, h)) \<le> top_y (lower_window (x, y, w, h))"
  by (simp add: upper_window_def lower_window_def)

theorem windows_do_not_overlap_witness:
  "(60::int) \<le> 70
   \<and> bottom_y (upper_window (450, 80, 60, 60)) \<le> top_y (lower_window (450, 80, 60, 60))"
  using windows_do_not_overlap [of 60 450 80 60] by simp

lemma upper_roi_snoc:
  "upper_roi caps img (faces @ [face]) = Some (crop_window caps img (upper_window face))"
  by (simp add: upper_roi_def)

lemma upper_roi_last:
  "faces \<noteq> [] \<Longrightarrow>
     upper_roi caps img faces = Some (crop_window caps img (upper_window (last faces)))"
  using upper_roi_snoc [of caps img "butlast faces" "last faces"] by simp

lemma lower_roi_hd:
  "faces \<noteq> [] \<Longrightarrow>
     lower_roi caps img faces = Some (crop_window caps img (lower_window (hd faces)))"
  by (cases faces) simp_all

text \<open>
  Claim C7. For a non-empty list of anchors, the upper region that survives the loop is
  the crop around the last anchor, and the lower region is the crop around the first one;
  the two extractions give what they give for that anchor alone. With a single anchor the
  last and the first are that anchor.
\<close>

theorem anchors_last_and_first:
  "faces \<noteq> [] \<Longrightarrow>
     upper_roi caps front_image faces
       = Some (crop_window caps front_image (upper_window (last faces)))
   \<and> lower_roi caps front_gray faces
       = Some (crop_window caps front_gray (lower_window (hd faces)))
   \<and> ocr_front_upper caps front_image faces = ocr_front_upper caps front_image [last faces]
   \<and> ocr_front_lower caps front_gray faces = ocr_front_lower caps front_gray [hd faces]
   \<and> (\<forall>face. faces = [face] \<longrightarrow> last faces = face \<and> hd faces = face)"
proof (intro conjI)
  assume ne: "faces \<noteq> []"
  show "upper_roi caps front_image faces
          = Some (crop_window caps front_image (upper_window (last faces)))"
    using ne by (rule upper_roi_last)
  show "lower_roi caps front_gray faces
          = Some (crop_window caps front_gray (lower_window (hd faces)))"
    using ne by (rule lower_roi_hd)
  show "ocr_front_upper caps front_image faces
          = ocr_front_upper caps front_image [last faces]"
    using ne
    by (simp add: ocr_front_upper_def upper_roi_last
             cong: sum.case_cong option.case_cong if_cong)
  show "ocr_front_lower caps front_gray faces = ocr_front_lower caps front_gray [hd faces]"
    using ne
    by (simp add: ocr_front_lower_def lower_roi_hd
             cong: sum.case_cong option.case_cong if_cong)
  show "\<forall>face. faces = [face] \<longrightarrow> last faces = face \<and> hd faces = face" by simp
qed

theorem anchors_last_and_first_witness:
  "[(450, 80, 60, 60), (300, 90, 50, 50)] \<noteq> ([] :: box list)
   \<and> upper_roi (demo_caps []) (0, 400, 0, 600) [(450, 80, 60, 60), (300, 90, 50, 50)]
       = Some (18, 180, 0, 285)
   \<and> lower_roi (demo_caps []) (0, 400, 0, 600) [(450, 80, 60, 60), (300, 90, 50, 50)]
       = Some (190, 275, 40, 435)"
  using anchors_last_and_first [of "[(450, 80, 60, 60), (300, 90, 50, 50)]" "demo_caps []"
          "(0, 400, 0, 600)" "(0, 400, 0, 600)"]
  by (simp add: crop_window_def upper_window_def lower_window_def demo_caps_def demo_crop_def)

text \<open>
  Claim C9. When the object detector returns \<open>None\<close> or no box for the front image,
  \<open>ocr_front_upper\<close> returns the empty field set and the empty text list, whatever
  the anchors are; cropping, grey conversion and text recognition play no part in it (the
  result is the same with any other \<open>crop\<close>, \<open>cvtColor\<close> and \<open>readtext\<close>).
\<close>

theorem upper_needs_detector:
  "yolo caps front_image = Inr None \<or> yolo caps front_image = Inr (Some []) \<Longrightarrow>
     ocr_front_upper (caps\<lparr>crop := c, cvtColor := g, readtext := r\<rparr>) front_image faces
       = ([], [])"
  unfolding ocr_front_upper_def by auto

lemma demo_upper:
  "ocr_front_upper (demo_caps qr) (0, 400, 0, 600) [(450, 80, 60, 60)]
     = ([(''Name'', Str ''Ali''), (''Guardian Name'', Str ''Ahmed'')], [''Ali'', ''Ahmed''])"
  by (simp add: ocr_front_upper_def demo_caps_def upper_roi_def crop_window_def
        upper_window_def demo_crop_def demo_size_def to_grayscale_def demo_readtext_def
        filtered_def COMMON_FRONT_def str_remove_def Let_def)

theorem upper_needs_detector_witness:
  "yolo ((demo_caps [])\<lparr>yolo := (\<lambda>img. Inr (Some []))\<rparr>) (0, 400, 0, 600) = Inr (Some [])
   \<and> ocr_front_upper ((demo_caps [])\<lparr>yolo := (\<lambda>img. Inr (Some []))\<rparr>) (0, 400, 0, 600)
         [(450, 80, 60, 60)] = ([], [])
   \<and> ocr_front_upper (demo_caps []) (0, 400, 0, 600) [(450, 80, 60, 60)] \<noteq> ([], [])"
proof -
  have y: "yolo ((demo_caps [])\<lparr>yolo := (\<lambda>img. Inr (Some []))\<rparr>) (0, 400, 0, 600)
             = Inr (Some [])"
    by simp
  have same: "((demo_caps [])\<lparr>yolo := (\<lambda>img. Inr (Some []))\<rparr>)
                 \<lparr>crop := demo_crop, cvtColor := Inr, readtext := demo_readtext\<rparr>
              = (demo_caps [])\<lparr>yolo := (\<lambda>img. Inr (Some []))\<rparr>"
    by (simp add: demo_caps_def)
  from upper_needs_detector
          [where caps = "(demo_caps [])\<lparr>yolo := (\<lambda>img. Inr (Some []))\<rparr>"
             and front_image = "(0, 400, 0, 600)" and c = demo_crop and g = Inr
             and r = demo_readtext and faces = "[(450, 80, 60, 60)]"] y
  have "ocr_front_upper ((demo_caps [])\<lparr>yolo := (\<lambda>img. Inr (Some []))\<rparr>) (0, 400, 0, 600)
         [(450, 80, 60, 60)] = ([], [])"
    unfolding same by blast
  with y show ?thesis by (simp add: demo_upper)
qed

section \<open>The lower region\<close>

lemma find_cnic_filter:
  "find_cnic result =
     (case filter (\<lambda>raw. CHR ''-'' \<in> set raw \<and> length raw = 15) (map snd result) of
        [] \<Rightarrow> None
      | raw # others \<Rightarrow> Some (str_remove CHR ''-'' raw))"
  by (induction result) (simp_all add: Let_def)

lemma ocr_front_lower_result:
  assumes "lower_roi caps front_gray faces = Some roi"
      and "img_size caps roi \<noteq> 0"
      and "readtext caps roi = Inr result"
  shows "ocr_front_lower caps front_gray faces =
     (let texts = map convert_element (map Str (map snd (filtered COMMON_LOWER result)))
      in (find_cnic result,
          (if length texts \<ge> 4
           then [(''Id Card Number'', texts ! 0), (''Date Of Birth'', texts ! 1),
                 (''Date Of Issue'', texts ! 2), (''Date Of Expiry'', texts ! 3)]
           else []),
          texts))"
  using assms by (simp add: ocr_front_lower_def convert_dates_map Let_def)

lemma demo_lower_roi:
  "lower_roi (demo_caps qr) (0, 400, 0, 600) [(450, 80, 60, 60)] = Some (190, 275, 40, 435)"
  by (simp add: crop_window_def lower_window_def demo_caps_def demo_crop_def)

lemma demo_lower_size: "img_size (demo_caps qr) (190, 275, 40, 435) \<noteq> 0"
  by (simp add: demo_caps_def demo_size_def)

lemma demo_lower_read:
  "readtext (demo_caps qr) (190, 275, 40, 435) =
     Inr [((), ''Date of Birth''), ((), ''12345-1234567-1''), ((), ''01.02.1990''),
          ((), ''01.01.2020''), ((), ''01.01.2030'')]"
  by (simp add: demo_caps_def demo_readtext_def)

lemma demo_dates:
  "convert_dates [Str ''1234512345671'', Str ''01.02.1990'', Str ''01.01.2020'',
                  Str ''01.01.2030'' :: unit pyval]
     = Inr [Str ''1234512345671'', Str ''010290'', Str ''010120'', Str ''010130'']"
  by code_simp

text \<open>
  Claim C3. Let the surviving tokens be the recognised texts of the lower region without
  those of the denylist, each with its hyphens removed, after date normalisation (which
  always returns). With four or more of them the field set is exactly
  \<open>Id Card Number\<close>, \<open>Date Of Birth\<close>, \<open>Date Of Issue\<close>, \<open>Date Of Expiry\<close>, bound to
  the first four in that order; with fewer it is empty, and the function still returns.
\<close>

theorem lower_fields_positional:
  assumes "lower_roi caps front_gray faces = Some roi"
      and "img_size caps roi \<noteq> 0"
      and "readtext caps roi = Inr result"
  shows "\<exists>texts.
           convert_dates (map (\<lambda>t. Str (str_remove CHR ''-'' t))
                              (filter (\<lambda>t. t \<notin> set COMMON_LOWER) (map snd result))) = Inr texts
         \<and> snd (ocr_front_lower caps front_gray faces) =
             ((if 4 \<le> length texts
               then [(''Id Card Number'', texts ! 0), (''Date Of Birth'', texts ! 1),
                     (''Date Of Issue'', texts ! 2), (''Date Of Expiry'', texts ! 3)]
               else []),
              texts)"
proof -
  let ?raw = "map Str (map snd (filtered COMMON_LOWER result))"
  have eq: "map (\<lambda>t. Str (str_remove CHR ''-'' t))
                (filter (\<lambda>t. t \<notin> set COMMON_LOWER) (map snd result)) = ?raw"
    by (simp add: filtered_def filter_map comp_def)
  have c: "convert_dates ?raw = Inr (map convert_element ?raw)"
    by (rule convert_dates_map)
  have r: "snd (ocr_front_lower caps front_gray faces) =
             ((if 4 \<le> length (map convert_element ?raw)
               then [(''Id Card Number'', map convert_element ?raw ! 0),
                     (''Date Of Birth'', map convert_element ?raw ! 1),
                     (''Date Of Issue'', map convert_element ?raw ! 2),
                     (''Date Of Expiry'', map convert_element ?raw ! 3)]
               else []),
              map convert_element ?raw)"
    by (simp add: ocr_front_lower_result [OF assms] Let_def)
  show ?thesis
    unfolding eq c using r by blast
qed

theorem lower_fields_positional_witness:
  "lower_roi (demo_caps []) (0, 400, 0, 600) [(450, 80, 60, 60)] = Some (190, 275, 40, 435)
   \<and> img_size (demo_caps []) (190, 275, 40, 435) \<noteq> 0
   \<and> readtext (demo_caps []) (190, 275, 40, 435) =
        Inr [((), ''Date of Birth''), ((), ''12345-1234567-1''), ((), ''01.02.1990''),
             ((), ''01.01.2020''), ((), ''01.01.2030'')]
   \<and> snd (ocr_front_lower (demo_caps []) (0, 400, 0, 600) [(450, 80, 60, 60)]) =
        ([(''Id Card Number'', Str ''1234512345671''), (''Date Of Birth'', Str ''010290''),
          (''Date Of Issue'', Str ''010120''), (''Date Of Expiry'', Str ''010130'')],
         [Str ''1234512345671'', Str ''010290'', Str ''010120'', Str ''010130''])"
proof -
  have f: "map (\<lambda>t. Str (str_remove CHR ''-'' t))
             (filter (\<lambda>t. t \<notin> set COMMON_LOWER)
                (map snd [((), ''Date of Birth''), ((), ''12345-1234567-1''),
                          ((), ''01.02.1990''), ((), ''01.01.2020''), ((), ''01.01.2030'')]))
           = [Str ''1234512345671'', Str ''01.02.1990'', Str ''01.01.2020'',
              Str ''01.01.2030'' :: unit pyval]"
    by (simp add: COMMON_LOWER_def str_remove_def)
  from lower_fields_positional [OF demo_lower_roi demo_lower_size demo_lower_read, of "[]"]
  show ?thesis
    unfolding f demo_dates
    using demo_lower_roi [of "[]"] demo_lower_size [of "[]"] demo_lower_read [of "[]"]
    by auto
qed

text \<open>
  Claim C5. The front identifier is found among all recognised tokens as the reader
  returned them (before the denylist and before hyphens are removed): it is the first raw
  text that contains a hyphen and is 15 characters long, with every hyphen removed, and
  \<open>None\<close> when no token qualifies.
\<close>

theorem front_identifier_scan:
  assumes "lower_roi caps front_gray faces = Some roi"
      and "img_size caps roi \<noteq> 0"
      and "readtext caps roi = Inr result"
  shows "fst (ocr_front_lower caps front_gray faces) =
     (case filter (\<lambda>raw. CHR ''-'' \<in> set raw \<and> length raw = 15) (map snd result) of
        [] \<Rightarrow> None
      | raw # others \<Rightarrow> Some (str_remove CHR ''-'' raw))"
  using assms by (simp add: ocr_front_lower_result Let_def find_cnic_filter)

theorem front_identifier_scan_witness:
  "lower_roi (demo_caps []) (0, 400, 0, 600) [(450, 80, 60, 60)] = Some (190, 275, 40, 435)
   \<and> img_size (demo_caps []) (190, 275, 40, 435) \<noteq> 0
   \<and> readtext (demo_caps []) (190, 275, 40, 435) =
        Inr [((), ''Date of Birth''), ((), ''12345-1234567-1''), ((), ''01.02.1990''),
             ((), ''01.01.2020''), ((), ''01.01.2030'')]
   \<and> fst (ocr_front_lower (demo_caps []) (0, 400, 0, 600) [(450, 80, 60, 60)])
        = Some ''1234512345671''"
  using front_identifier_scan [OF demo_lower_roi demo_lower_size demo_lower_read, of "[]"]
        demo_lower_roi [of "[]"] demo_lower_size [of "[]"] demo_lower_read [of "[]"]
  by (simp add: str_remove_def)

section \<open>Merge\<close>

lemma map_of_dict_set: "map_of (dict_set k v d) = (map_of d)(k \<mapsto> v)"
  by (induction d) (auto simp: fun_eq_iff)

lemma keys_dict_set: "set (map fst (dict_set k v d)) = insert k (set (map fst d))"
proof -
  have "dom (map_of (dict_set k v d)) = insert k (dom (map_of d))"
    by (simp add: map_of_dict_set)
  then show ?thesis by (simp add: dom_map_of_conv_image_fst)
qed

lemma distinct_dict_set: "distinct (map fst d) \<Longrightarrow> distinct (map fst (dict_set k v d))"
proof (induction d)
  case Nil
  show ?case by simp
next
  case (Cons p d)
  obtain k' v' where p: "p = (k', v')" by (cases p)
  have "k' \<noteq> k \<Longrightarrow> k' \<notin> set (map fst (dict_set k v d))"
    using Cons.prems p by (simp only: keys_dict_set) auto
  with Cons p show ?case by auto
qed

lemma dict_set_present: "k \<in> set (map fst d) \<Longrightarrow> map fst (dict_set k v d) = map fst d"
proof (induction d)
  case Nil
  then show ?case by simp
next
  case (Cons p d)
  obtain k' v' where p: "p = (k', v')" by (cases p)
  show ?case
  proof (cases "k' = k")
    case True
    with p show ?thesis by simp
  next
    case False
    with Cons.prems p have "k \<in> set (map fst d)" by simp
    with Cons.IH False p show ?thesis by simp
  qed
qed

lemma map_of_foldl_dict_set:
  "distinct (map fst xs) \<Longrightarrow>
     map_of (foldl (\<lambda>d (k, v). dict_set k v d) d0 xs) = map_of d0 ++ map_of xs"
proof (induction xs rule: rev_induct)
  case Nil
  show ?case by simp
next
  case (snoc p xs)
  obtain k v where p: "p = (k, v)" by (cases p)
  from snoc.prems p have none: "map_of xs k = None"
    by (simp add: map_of_eq_None_iff)
  from snoc have IH: "map_of (foldl (\<lambda>d (k, v). dict_set k v d) d0 xs) = map_of d0 ++ map_of xs"
    by simp
  show ?case
    by (auto simp: p IH map_of_dict_set fun_eq_iff map_add_def none split: option.split)
qed

lemma distinct_foldl_dict_set:
  "distinct (map fst d0) \<Longrightarrow> distinct (map fst (foldl (\<lambda>d (k, v). dict_set k v d) d0 xs))"
  by (induction xs arbitrary: d0) (auto simp: distinct_dict_set)

lemma map_of_dict_unpack:
  "distinct (map fst a) \<Longrightarrow> distinct (map fst b) \<Longrightarrow>
     map_of (dict_unpack a b) = map_of a ++ map_of b"
  by (simp add: dict_unpack_def map_of_foldl_dict_set del: map_of_append)

lemma distinct_dict_unpack: "distinct (map fst (dict_unpack a b))"
  unfolding dict_unpack_def by (rule distinct_foldl_dict_set) simp

lemma sanitise_idem: "sanitise (sanitise v) = sanitise v"
  by (cases v) (simp_all add: str_remove_def)

lemma map_of_sanitise_key:
  "map_of (sanitise_key m key) = (map_of m)(key := map_option sanitise (map_of m key))"
proof (cases "map_of m key")
  case None
  then show ?thesis by (simp add: sanitise_key_def fun_eq_iff)
next
  case (Some v)
  then show ?thesis
    by (cases v) (auto simp: sanitise_key_def map_of_dict_set fun_eq_iff)
qed

lemma keys_sanitise_key: "map fst (sanitise_key m key) = map fst m"
proof (cases "map_of m key")
  case None
  then show ?thesis by (simp add: sanitise_key_def)
next
  case (Some v)
  then have "key \<in> set (map fst m)"
    by (metis map_of_eq_None_iff option.distinct(1) set_map)
  with Some show ?thesis
    by (cases v) (simp_all add: sanitise_key_def dict_set_present)
qed

lemma map_of_foldl_sanitise_key:
  "map_of (foldl sanitise_key m ks) k =
     (if k \<in> set ks then map_option sanitise (map_of m k) else map_of m k)"
proof (induction ks arbitrary: m)
  case Nil
  show ?case by simp
next
  case (Cons x ks)
  show ?case
    by (simp add: Cons.IH map_of_sanitise_key option.map_comp comp_def sanitise_idem)
qed

lemma keys_foldl_sanitise_key: "map fst (foldl sanitise_key m ks) = map fst m"
  by (induction ks arbitrary: m) (simp_all add: keys_sanitise_key)

lemma map_of_sanitise_all:
  "map_of (foldl sanitise_key m (map fst m)) k = map_option sanitise (map_of m k)"
proof (cases "map_of m k")
  case None
  then have "k \<notin> set (map fst m)" by (simp add: map_of_eq_None_iff)
  with None show ?thesis by (simp add: map_of_foldl_sanitise_key)
next
  case (Some v)
  then have "k \<in> set (map fst m)"
    by (metis map_of_eq_None_iff option.distinct(1) set_map)
  then show ?thesis by (simp add: map_of_foldl_sanitise_key)
qed

text \<open>
  Claim C6. For two field sets, \<open>merge_card_data\<close> returns the union in which the
  lower field wins on a key of both, with every dot removed from every string value: at
  each key the returned dictionary holds the sanitised value of the right-biased union and
  nothing else, and its keys are distinct.
\<close>

theorem merge_is_sanitised_union:
  assumes "distinct (map fst (or_empty upper))" and "distinct (map fst (or_empty lower))"
  shows "map_of (fst (merge_card_data caps upper lower raw_upper raw_lower csv_path world)) k
           = map_option sanitise ((map_of (or_empty upper) ++ map_of (or_empty lower)) k)
         \<and> distinct (map fst (fst (merge_card_data caps upper lower raw_upper raw_lower
                                      csv_path world)))"
proof -
  let ?m0 = "dict_unpack (or_empty upper) (or_empty lower)"
  have m: "fst (merge_card_data caps upper lower raw_upper raw_lower csv_path world)
             = foldl sanitise_key ?m0 (map fst ?m0)"
    by (simp add: merge_card_data_def Let_def split: option.split)
  show ?thesis
    unfolding m
    by (simp add: map_of_sanitise_all map_of_dict_unpack [OF assms] keys_foldl_sanitise_key
          distinct_dict_unpack del: map_of_append)
qed

theorem merge_is_sanitised_union_witness:
  "distinct (map fst (or_empty (Some [(''Name'', Str ''M. Ali''), (''Flag'', Obj ())])))
   \<and> distinct (map fst (or_empty (Some [(''Id'', Str ''1.2''), (''Name'', Str ''A.B.'')])))
   \<and> map_of (fst (merge_card_data (demo_caps [])
            (Some [(''Name'', Str ''M. Ali''), (''Flag'', Obj ())])
            (Some [(''Id'', Str ''1.2''), (''Name'', Str ''A.B.'')]) [] [] None [])) ''Name''
       = Some (Str ''AB'')
   \<and> fst (merge_card_data (demo_caps [])
            (Some [(''Name'', Str ''M. Ali''), (''Flag'', Obj ())])
            (Some [(''Id'', Str ''1.2''), (''Name'', Str ''A.B.'')]) [] [] None [])
       = [(''Name'', Str ''AB''), (''Flag'', Obj ()), (''Id'', Str ''12'')]"
proof -
  have u: "distinct (map fst (or_empty (Some [(''Name'', Str ''M. Ali''), (''Flag'', Obj ())])))"
    by (simp add: or_empty_def)
  have l: "distinct (map fst (or_empty (Some [(''Id'', Str ''1.2''), (''Name'', Str ''A.B.'')])))"
    by (simp add: or_empty_def)
  have e: "fst (merge_card_data (demo_caps [])
            (Some [(''Name'', Str ''M. Ali''), (''Flag'', Obj ())])
            (Some [(''Id'', Str ''1.2''), (''Name'', Str ''A.B.'')]) [] [] None [])
       = [(''Name'', Str ''AB''), (''Flag'', Obj ()), (''Id'', Str ''12'')]"
    by (simp add: merge_card_data_def dict_unpack_def or_empty_def sanitise_key_def
          str_remove_def)
  from merge_is_sanitised_union [OF u l, of "demo_caps []" "[]" "[]" None "[]" "''Name''"]
  have "map_of (fst (merge_card_data (demo_caps [])
            (Some [(''Name'', Str ''M. Ali''), (''Flag'', Obj ())])
            (Some [(''Id'', Str ''1.2''), (''Name'', Str ''A.B.'')]) [] [] None [])) ''Name''
       = Some (Str ''AB'')"
    by (simp add: or_empty_def str_remove_def)
  with u l e show ?thesis by blast
qed

section \<open>The pipeline\<close>

text \<open>Nothing before the merge uses the file system.\<close>

lemma read_image_frame:
  "read_image_from_stream (caps\<lparr>csv_write := f\<rparr>) stream = read_image_from_stream caps stream"
  by (simp add: read_image_from_stream_def cong: sum.case_cong if_cong)

lemma to_grayscale_frame: "to_grayscale (caps\<lparr>csv_write := f\<rparr>) img = to_grayscale caps img"
  by (simp add: to_grayscale_def)

lemma detect_card_regions_frame:
  "detect_card_regions (caps\<lparr>csv_write := f\<rparr>) g b = detect_card_regions caps g b"
  by (simp add: detect_card_regions_def cong: sum.case_cong)

lemma upper_roi_frame: "upper_roi (caps\<lparr>csv_write := f\<rparr>) img faces = upper_roi caps img faces"
  by (simp add: upper_roi_def crop_window_def)

lemma lower_roi_frame: "lower_roi (caps\<lparr>csv_write := f\<rparr>) img faces = lower_roi caps img faces"
  by (cases faces) (simp_all add: crop_window_def)

lemma ocr_front_upper_frame:
  "ocr_front_upper (caps\<lparr>csv_write := f\<rparr>) img faces = ocr_front_upper caps img faces"
  by (simp add: ocr_front_upper_def upper_roi_frame to_grayscale_frame
           cong: sum.case_cong option.case_cong if_cong)

lemma ocr_front_lower_frame:
  "ocr_front_lower (caps\<lparr>csv_write := f\<rparr>) img faces = ocr_front_lower caps img faces"
  by (simp add: ocr_front_lower_def lower_roi_frame
           cong: sum.case_cong option.case_cong if_cong)

lemma ocr_back_qr_frame: "ocr_back_qr (caps\<lparr>csv_write := f\<rparr>) img = ocr_back_qr caps img"
  by (simp add: ocr_back_qr_def to_grayscale_frame
           cong: sum.case_cong option.case_cong if_cong)

lemma id_detector_ocr_frame:
  "id_detector_ocr (caps\<lparr>csv_write := f\<rparr>) req = id_detector_ocr caps req"
  by (simp add: id_detector_ocr_def read_image_frame to_grayscale_frame
        detect_card_regions_frame ocr_front_upper_frame ocr_front_lower_frame
        ocr_back_qr_frame
        cong: sum.case_cong option.case_cong if_cong prod.case_cong)

text \<open>
  Claim C2. When the pipeline reaches reconciliation and the two identifiers do not
  reconcile, it answers 406 with the error \<open>cnic_mismatch\<close> and both identifiers as its
  data, which is not the internal-error response 500; the merge is not run and nothing is
  persisted: the file system is the one before the request, whatever writing a file would
  have done.
\<close>

theorem mismatch_is_reported_not_merged:
  assumes "id_detector_ocr caps req =
             Inr (Inr (upper_data, upper_raw, cnic_front, lower_data, lower_raw, cnic_back))"
      and "\<not> validate_cnic cnic_front cnic_back"
  shows "id_detector (caps\<lparr>csv_write := any_write\<rparr>) req world =
           ((\<lparr>success = False, message = ''Front and back CNIC numbers do not match'',
              payload = Some (Identifiers cnic_front cnic_back),
              errors = [''cnic_mismatch'']\<rparr>, 406), world)
         \<and> (\<forall>exc. fst (id_detector (caps\<lparr>csv_write := any_write\<rparr>) req world) \<noteq>
                (envelope False ''Internal server error'' None (Some [str_of_exn exc]), 500))"
  using assms by (simp add: id_detector_def envelope_def id_detector_ocr_frame)

lemma demo_lower:
  "ocr_front_lower (demo_caps qr) (0, 400, 0, 600) [(450, 80, 60, 60)] =
     (Some ''1234512345671'',
      [(''Id Card Number'', Str ''1234512345671''), (''Date Of Birth'', Str ''010290''),
       (''Date Of Issue'', Str ''010120''), (''Date Of Expiry'', Str ''010130'')],
      [Str ''1234512345671'', Str ''010290'', Str ''010120'', Str ''010130''])"
proof -
  have f: "map Str (map snd (filtered COMMON_LOWER
             [((), ''Date of Birth''), ((), ''12345-1234567-1''), ((), ''01.02.1990''),
              ((), ''01.01.2020''), ((), ''01.01.2030'')]))
           = [Str ''1234512345671'', Str ''01.02.1990'', Str ''01.01.2020'',
              Str ''01.01.2030'' :: unit pyval]"
    by (simp add: filtered_def COMMON_LOWER_def str_remove_def)
  have d: "map convert_element [Str ''1234512345671'', Str ''01.02.1990'', Str ''01.01.2020'',
                                Str ''01.01.2030'' :: unit pyval]
             = [Str ''1234512345671'', Str ''010290'', Str ''010120'', Str ''010130'']"
    using demo_dates by (simp only: convert_dates_map sum.inject)
  show ?thesis
    unfolding ocr_front_lower_result [OF demo_lower_roi demo_lower_size demo_lower_read] f d
    by (simp add: str_remove_def)
qed

lemma demo_back:
  "ocr_back_qr (demo_caps ''000000000000999991234567100'') (0, 400, 0, 600)
     = Some ''9999912345671''"
  by (simp add: ocr_back_qr_def demo_caps_def to_grayscale_def)

lemma demo_ocr:
  "id_detector_ocr (demo_caps ''000000000000999991234567100'') demo_request =
     Inr (Inr ([(''Name'', Str ''Ali''), (''Guardian Name'', Str ''Ahmed'')],
               [''Ali'', ''Ahmed''], Some ''1234512345671'',
               [(''Id Card Number'', Str ''1234512345671''), (''Date Of Birth'', Str ''010290''),
                (''Date Of Issue'', Str ''010120''), (''Date Of Expiry'', Str ''010130'')],
               [Str ''1234512345671'', Str ''010290'', Str ''010120'', Str ''010130''],
               Some ''9999912345671''))"
proof -
  have r: "read_image_from_stream (demo_caps qr) (Inr [n]) = Some (0, 400, 0, 600)" for qr n
    by (simp add: read_image_from_stream_def demo_caps_def)
  have g: "to_grayscale (demo_caps qr) img = Inr img" for qr img
    by (simp add: to_grayscale_def demo_caps_def)
  have f: "detectMultiScale (demo_caps qr) img = Inr [(450, 80, 60, 60)]" for qr img
    by (simp add: demo_caps_def)
  have c: "detect_card_regions (demo_caps qr) a b = Inr (b, a)" for qr a b
    by (simp add: detect_card_regions_def demo_caps_def)
  show ?thesis
    by (simp add: id_detector_ocr_def demo_request_def r g f c demo_upper demo_lower demo_back)
qed

theorem mismatch_is_reported_not_merged_witness:
  "id_detector_ocr (demo_caps ''000000000000999991234567100'') demo_request =
     Inr (Inr ([(''Name'', Str ''Ali''), (''Guardian Name'', Str ''Ahmed'')],
               [''Ali'', ''Ahmed''], Some ''1234512345671'',
               [(''Id Card Number'', Str ''1234512345671''), (''Date Of Birth'', Str ''010290''),
                (''Date Of Issue'', Str ''010120''), (''Date Of Expiry'', Str ''010130'')],
               [Str ''1234512345671'', Str ''010290'', Str ''010120'', Str ''010130''],
               Some ''9999912345671''))
   \<and> \<not> validate_cnic (Some ''1234512345671'') (Some ''9999912345671'')
   \<and> id_detector (demo_caps ''000000000000999991234567100'') demo_request [] =
       ((\<lparr>success = False, message = ''Front and back CNIC numbers do not match'',
          payload = Some (Identifiers (Some ''1234512345671'') (Some ''9999912345671'')),
          errors = [''cnic_mismatch'']\<rparr>, 406), [])"
proof -
  have v: "\<not> validate_cnic (Some ''1234512345671'') (Some ''9999912345671'')"
    by simp
  have same: "(demo_caps qr)\<lparr>csv_write := (\<lambda>path rows world. (path, rows) # world)\<rparr>
                = demo_caps qr" for qr
    by (simp add: demo_caps_def)
  from mismatch_is_reported_not_merged
         [OF demo_ocr v, of "\<lambda>path rows world. (path, rows) # world" "[]"]
  show ?thesis
    unfolding same using demo_ocr v by blast
qed

section \<open>Which tokens the date normalisation rewrites\<close>

lemma re_set_Cons: "re_set cs (c # r) = (if c \<in> set cs then [([c], r)] else [])"
  by (simp add: re_set_def)

lemma re_set_Nil: "re_set cs [] = []"
  by (simp add: re_set_def)

lemma digit_cases:
  "c \<in> set digits \<Longrightarrow>
     c = CHR ''0'' \<or> c = CHR ''1'' \<or> c = CHR ''2'' \<or> c = CHR ''3'' \<or> c = CHR ''4'' \<or>
     c = CHR ''5'' \<or> c = CHR ''6'' \<or> c = CHR ''7'' \<or> c = CHR ''8'' \<or> c = CHR ''9''"
  by (simp add: digits_def)

lemma day_dot:
  assumes "a \<in> set digits" "b \<in> set digits"
  shows "then_dot directive_d (a # b # CHR ''.'' # r) =
           (if 1 \<le> 10 * digit_val a + digit_val b \<and> 10 * digit_val a + digit_val b \<le> 31
            then [([a, b], r)] else [])"
  using digit_cases [OF assms(1)] digit_cases [OF assms(2)]
  by (elim disjE;
      simp add: then_dot_def directive_d_def re_alt_def re_seq_def re_set_Cons re_set_Nil
        digits_def digits19_def digit_val_def)

lemma month_dot:
  assumes "a \<in> set digits" "b \<in> set digits"
  shows "then_dot directive_m (a # b # CHR ''.'' # r) =
           (if 1 \<le> 10 * digit_val a + digit_val b \<and> 10 * digit_val a + digit_val b \<le> 12
            then [([a, b], r)] else [])"
  using digit_cases [OF assms(1)] digit_cases [OF assms(2)]
  by (elim disjE;
      simp add: then_dot_def directive_m_def re_alt_def re_seq_def re_set_Cons re_set_Nil
        digits_def digits19_def digit_val_def)

lemma year_match:
  assumes "a \<in> set digits" "b \<in> set digits" "c \<in> set digits" "d \<in> set digits"
  shows "directive_Y (a # b # c # d # r) = [([a, b, c, d], r)]"
  using assms by (simp add: directive_Y_def re_seq_def re_set_Cons)

lemma digit_val_range: "c \<in> set digits \<Longrightarrow> 0 \<le> digit_val c \<and> digit_val c \<le> 9"
  by (drule digit_cases) (elim disjE; simp add: digit_val_def)

lemma digit_char_val: "c \<in> set digits \<Longrightarrow> digit_char (digit_val c) = c"
  by (drule digit_cases) (elim disjE; simp add: digit_val_def digit_char_def digits_def)

lemma digit_not_blank: "c \<in> set digits \<Longrightarrow> c \<noteq> CHR '' ''"
  by (auto simp: digits_def)

lemma strip_digits: "t \<noteq> [] \<Longrightarrow> hd t \<in> set digits \<Longrightarrow> last t \<in> set digits \<Longrightarrow> strip t = t"
proof -
  assume t: "t \<noteq> []" and h: "hd t \<in> set digits" and l: "last t \<in> set digits"
  from t h have 1: "dropWhile (\<lambda>c. c = CHR '' '') t = t"
    by (cases t) (auto dest: digit_not_blank)
  from t l have 2: "dropWhile (\<lambda>c. c = CHR '' '') (rev t) = rev t"
    by (cases "rev t") (auto dest: digit_not_blank simp: hd_rev)
  show ?thesis by (simp add: strip_def 1 2)
qed

lemma py_int_2:
  "a \<in> set digits \<Longrightarrow> b \<in> set digits \<Longrightarrow> py_int [a, b] = Inr (10 * digit_val a + digit_val b)"
  by (simp add: py_int_def strip_digits)

lemma py_int_4:
  "a \<in> set digits \<Longrightarrow> b \<in> set digits \<Longrightarrow> c \<in> set digits \<Longrightarrow> d \<in> set digits \<Longrightarrow>
     py_int [a, b, c, d]
       = Inr (1000 * digit_val a + 100 * digit_val b + 10 * digit_val c + digit_val d)"
  by (simp add: py_int_def strip_digits)

lemma pad2_digits:
  "a \<in> set digits \<Longrightarrow> b \<in> set digits \<Longrightarrow> pad2 (10 * digit_val a + digit_val b) = [a, b]"
proof -
  assume a: "a \<in> set digits" and b: "b \<in> set digits"
  from digit_val_range [OF a] digit_val_range [OF b]
  have "(10 * digit_val a + digit_val b) div 10 mod 10 = digit_val a"
    and "(10 * digit_val a + digit_val b) mod 10 = digit_val b"
    by auto
  then show ?thesis by (simp add: pad2_def digit_char_val a b)
qed

lemma year_mod_100:
  assumes "a \<in> set digits" "b \<in> set digits" "c \<in> set digits" "d \<in> set digits"
  shows "(1000 * digit_val a + 100 * digit_val b + 10 * digit_val c + digit_val d) mod 100
           = 10 * digit_val c + digit_val d"
proof -
  let ?lo = "10 * digit_val c + digit_val d"
  have "1000 * digit_val a + 100 * digit_val b + 10 * digit_val c + digit_val d
          = ?lo + 100 * (10 * digit_val a + digit_val b)"
    by simp
  then have "(1000 * digit_val a + 100 * digit_val b + 10 * digit_val c + digit_val d) mod 100
               = ?lo mod 100"
    by (simp only: mod_mult_self2)
  moreover have "0 \<le> ?lo" and "?lo < 100"
    using digit_val_range [OF assms(3)] digit_val_range [OF assms(4)] by auto
  ultimately show ?thesis by simp
qed

lemma days_in_month_le: "1 \<le> m \<Longrightarrow> m \<le> 12 \<Longrightarrow> days_in_month y m \<le> 31"
proof -
  assume "1 \<le> m" and "m \<le> 12"
  then have "m = 1 \<or> m = 2 \<or> m = 3 \<or> m = 4 \<or> m = 5 \<or> m = 6 \<or> m = 7 \<or> m = 8 \<or> m = 9
             \<or> m = 10 \<or> m = 11 \<or> m = 12"
    by arith
  then show ?thesis
    by (elim disjE; simp add: days_in_month_def)
qed

lemma format_regex_exact:
  assumes "d1 \<in> set digits" "d2 \<in> set digits" "m1 \<in> set digits" "m2 \<in> set digits"
      and "y1 \<in> set digits" "y2 \<in> set digits" "y3 \<in> set digits" "y4 \<in> set digits"
  shows "format_regex [d1, d2, CHR ''.'', m1, m2, CHR ''.'', y1, y2, y3, y4] =
           (if 1 \<le> 10 * digit_val d1 + digit_val d2 \<and> 10 * digit_val d1 + digit_val d2 \<le> 31
               \<and> 1 \<le> 10 * digit_val m1 + digit_val m2 \<and> 10 * digit_val m1 + digit_val m2 \<le> 12
            then [([d1, d2], [m1, m2], [y1, y2, y3, y4], [])] else [])"
  by (simp add: format_regex_def day_dot month_dot year_match assms)

lemma strptime_exact:
  assumes "d1 \<in> set digits" "d2 \<in> set digits" "m1 \<in> set digits" "m2 \<in> set digits"
      and "y1 \<in> set digits" "y2 \<in> set digits" "y3 \<in> set digits" "y4 \<in> set digits"
  shows "strptime [d1, d2, CHR ''.'', m1, m2, CHR ''.'', y1, y2, y3, y4] =
           (if 1 \<le> 10 * digit_val d1 + digit_val d2 \<and> 10 * digit_val d1 + digit_val d2 \<le> 31
               \<and> 1 \<le> 10 * digit_val m1 + digit_val m2 \<and> 10 * digit_val m1 + digit_val m2 \<le> 12
            then datetime_date
                   (1000 * digit_val y1 + 100 * digit_val y2 + 10 * digit_val y3 + digit_val y4)
                   (10 * digit_val m1 + digit_val m2) (10 * digit_val d1 + digit_val d2)
            else Inl (ValueError ''time data does not match format''))"
  by (simp add: strptime_def format_regex_exact py_int_2 py_int_4 assms)

lemma convert_element_exact:
  assumes "d1 \<in> set digits" "d2 \<in> set digits" "m1 \<in> set digits" "m2 \<in> set digits"
      and "y1 \<in> set digits" "y2 \<in> set digits" "y3 \<in> set digits" "y4 \<in> set digits"
  shows "convert_element (Str [d1, d2, CHR ''.'', m1, m2, CHR ''.'', y1, y2, y3, y4]) =
           (let dd = 10 * digit_val d1 + digit_val d2;
                mm = 10 * digit_val m1 + digit_val m2;
                yy = 1000 * digit_val y1 + 100 * digit_val y2 + 10 * digit_val y3 + digit_val y4
            in if 1 \<le> yy \<and> 1 \<le> mm \<and> mm \<le> 12 \<and> 1 \<le> dd \<and> dd \<le> days_in_month yy mm
               then Str [d1, d2, m1, m2, y3, y4]
               else Str [d1, d2, CHR ''.'', m1, m2, CHR ''.'', y1, y2, y3, y4])"
proof -
  let ?dd = "10 * digit_val d1 + digit_val d2"
  let ?mm = "10 * digit_val m1 + digit_val m2"
  let ?yy = "1000 * digit_val y1 + 100 * digit_val y2 + 10 * digit_val y3 + digit_val y4"
  let ?s = "[d1, d2, CHR ''.'', m1, m2, CHR ''.'', y1, y2, y3, y4]"
  have yy: "?yy \<le> 9999"
    using digit_val_range [OF assms(5)] digit_val_range [OF assms(6)]
          digit_val_range [OF assms(7)] digit_val_range [OF assms(8)] by auto
  show ?thesis
  proof (cases "1 \<le> ?yy \<and> 1 \<le> ?mm \<and> ?mm \<le> 12 \<and> 1 \<le> ?dd \<and> ?dd \<le> days_in_month ?yy ?mm")
    case True
    then have "?dd \<le> 31" using days_in_month_le [of ?mm ?yy] by linarith
    with True yy have "strptime ?s = Inr \<lparr>year = ?yy, month = ?mm, day = ?dd\<rparr>"
      by (simp add: strptime_exact assms datetime_date_def)
    with True show ?thesis
      by (simp add: Let_def strftime_def pad2_digits year_mod_100 assms)
  next
    case False
    then have "\<exists>e. strptime ?s = Inl e"
      by (auto simp: strptime_exact assms datetime_date_def)
    with False show ?thesis
      by (auto simp: Let_def)
  qed
qed

lemma day_dot_single:
  assumes "a \<in> set digits"
  shows "then_dot directive_d (a # CHR ''.'' # r) = (if 1 \<le> digit_val a then [([a], r)] else [])"
  using digit_cases [OF assms]
  by (elim disjE;
      simp add: then_dot_def directive_d_def re_alt_def re_seq_def re_set_Cons re_set_Nil
        digits_def digits19_def digit_val_def)

lemma day_dot_blank:
  assumes "a \<in> set digits"
  shows "then_dot directive_d (CHR '' '' # a # CHR ''.'' # r) =
           (if 1 \<le> digit_val a then [([CHR '' '', a], r)] else [])"
  using digit_cases [OF assms]
  by (elim disjE;
      simp add: then_dot_def directive_d_def re_alt_def re_seq_def re_set_Cons re_set_Nil
        digits_def digits19_def digit_val_def)

lemma month_dot_single:
  assumes "a \<in> set digits"
  shows "then_dot directive_m (a # CHR ''.'' # r) = (if 1 \<le> digit_val a then [([a], r)] else [])"
  using digit_cases [OF assms]
  by (elim disjE;
      simp add: then_dot_def directive_m_def re_alt_def re_seq_def re_set_Cons re_set_Nil
        digits_def digits19_def digit_val_def)

lemma py_int_1: "a \<in> set digits \<Longrightarrow> py_int [a] = Inr (digit_val a)"
  by (simp add: py_int_def strip_digits)

lemma py_int_blank: "a \<in> set digits \<Longrightarrow> py_int [CHR '' '', a] = Inr (digit_val a)"
proof -
  assume a: "a \<in> set digits"
  then have "strip [CHR '' '', a] = [a]"
    by (simp add: strip_def digit_not_blank)
  with a show ?thesis by (simp add: py_int_def)
qed

lemma day_shape_eval:
  assumes "(\<exists>a\<in>set digits. \<exists>b\<in>set digits. D = [a, b])
           \<or> (\<exists>a\<in>set digits. D = [a] \<or> D = [CHR '' '', a])"
  shows "\<exists>dd. py_int D = Inr dd \<and>
           (\<forall>r. then_dot directive_d (D @ CHR ''.'' # r)
                  = (if 1 \<le> dd \<and> dd \<le> 31 then [(D, r)] else []))"
proof -
  from assms consider
      (two) a b where "a \<in> set digits" "b \<in> set digits" "D = [a, b]"
    | (one) a where "a \<in> set digits" "D = [a]"
    | (blank) a where "a \<in> set digits" "D = [CHR '' '', a]"
    by blast
  then show ?thesis
  proof cases
    case two
    then show ?thesis by (simp add: py_int_2 day_dot)
  next
    case one
    with digit_val_range [of a] show ?thesis by (simp add: py_int_1 day_dot_single)
  next
    case blank
    with digit_val_range [of a] show ?thesis by (simp add: py_int_blank day_dot_blank)
  qed
qed

lemma month_shape_eval:
  assumes "(\<exists>a\<in>set digits. \<exists>b\<in>set digits. M = [a, b]) \<or> (\<exists>a\<in>set digits. M = [a])"
  shows "\<exists>mm. py_int M = Inr mm \<and>
           (\<forall>r. then_dot directive_m (M @ CHR ''.'' # r)
                  = (if 1 \<le> mm \<and> mm \<le> 12 then [(M, r)] else []))"
proof -
  from assms consider
      (two) a b where "a \<in> set digits" "b \<in> set digits" "M = [a, b]"
    | (one) a where "a \<in> set digits" "M = [a]"
    by blast
  then show ?thesis
  proof cases
    case two
    then show ?thesis by (simp add: py_int_2 month_dot)
  next
    case one
    with digit_val_range [of a] show ?thesis by (simp add: py_int_1 month_dot_single)
  qed
qed

lemma four_chars:
  assumes "length Y = 4"
  obtains a b c d where "Y = [a, b, c, d]"
proof -
  from assms obtain a t1 where 1: "Y = a # t1" and "length t1 = 3"
    by (cases Y) auto
  then obtain b t2 where 2: "t1 = b # t2" and "length t2 = 2"
    by (cases t1) auto
  then obtain c t3 where 3: "t2 = c # t3" and "length t3 = 1"
    by (cases t2) auto
  then obtain d where 4: "t3 = [d]"
    by (cases t3) auto
  from 1 2 3 4 that show ?thesis by simp
qed

lemma year_shape_eval:
  assumes "length Y = 4" and "set Y \<subseteq> set digits"
  shows "\<exists>yy. py_int Y = Inr yy \<and> yy \<le> 9999 \<and> pad2 (yy mod 100) = drop 2 Y
              \<and> (\<forall>r. directive_Y (Y @ r) = [(Y, r)])"
proof -
  from assms(1) obtain a b c d where Y: "Y = [a, b, c, d]" by (rule four_chars)
  with assms(2) have dg: "a \<in> set digits" "b \<in> set digits" "c \<in> set digits" "d \<in> set digits"
    by simp_all
  let ?yy = "1000 * digit_val a + 100 * digit_val b + 10 * digit_val c + digit_val d"
  have "?yy \<le> 9999"
    using digit_val_range [OF dg(1)] digit_val_range [OF dg(2)]
          digit_val_range [OF dg(3)] digit_val_range [OF dg(4)] by auto
  moreover have "pad2 (?yy mod 100) = drop 2 Y"
    by (simp add: Y year_mod_100 dg pad2_digits)
  ultimately show ?thesis
    by (simp add: Y py_int_4 dg year_match)
qed

lemma convert_element_shape:
  assumes D: "(\<exists>a\<in>set digits. \<exists>b\<in>set digits. D = [a, b])
              \<or> (\<exists>a\<in>set digits. D = [a] \<or> D = [CHR '' '', a])"
      and M: "(\<exists>a\<in>set digits. \<exists>b\<in>set digits. M = [a, b]) \<or> (\<exists>a\<in>set digits. M = [a])"
      and Y: "length Y = 4" "set Y \<subseteq> set digits"
  shows "\<exists>dd mm yy. py_int D = Inr dd \<and> py_int M = Inr mm \<and> py_int Y = Inr yy \<and>
           convert_element (Str (D @ ''.'' @ M @ ''.'' @ Y)) =
             (if 1 \<le> yy \<and> 1 \<le> mm \<and> mm \<le> 12 \<and> 1 \<le> dd \<and> dd \<le> days_in_month yy mm
              then Str (pad2 dd @ pad2 mm @ drop 2 Y)
              else Str (D @ ''.'' @ M @ ''.'' @ Y))"
proof -
  from day_shape_eval [OF D] obtain dd where dd: "py_int D = Inr dd"
    and dm: "\<And>r. then_dot directive_d (D @ CHR ''.'' # r)
                  = (if 1 \<le> dd \<and> dd \<le> 31 then [(D, r)] else [])"
    by blast
  from month_shape_eval [OF M] obtain mm where mm: "py_int M = Inr mm"
    and mmatch: "\<And>r. then_dot directive_m (M @ CHR ''.'' # r)
                  = (if 1 \<le> mm \<and> mm \<le> 12 then [(M, r)] else [])"
    by blast
  from year_shape_eval [OF Y] obtain yy where yy: "py_int Y = Inr yy" and ymax: "yy \<le> 9999"
    and ypad: "pad2 (yy mod 100) = drop 2 Y"
    and ymatch: "\<And>r. directive_Y (Y @ r) = [(Y, r)]"
    by blast
  let ?s = "D @ ''.'' @ M @ ''.'' @ Y"
  have fr: "format_regex ?s =
              (if 1 \<le> dd \<and> dd \<le> 31 \<and> 1 \<le> mm \<and> mm \<le> 12 then [(D, M, Y, [])] else [])"
    using ymatch [of "[]"] by (simp add: format_regex_def dm mmatch)
  have sp: "strptime ?s =
              (if 1 \<le> dd \<and> dd \<le> 31 \<and> 1 \<le> mm \<and> mm \<le> 12 then datetime_date yy mm dd
               else Inl (ValueError ''time data does not match format''))"
    unfolding strptime_def fr by (simp add: dd mm yy)
  have "convert_element (Str ?s) =
          (if 1 \<le> yy \<and> 1 \<le> mm \<and> mm \<le> 12 \<and> 1 \<le> dd \<and> dd \<le> days_in_month yy mm
           then Str (pad2 dd @ pad2 mm @ drop 2 Y) else Str ?s)"
  proof (cases "1 \<le> yy \<and> 1 \<le> mm \<and> mm \<le> 12 \<and> 1 \<le> dd \<and> dd \<le> days_in_month yy mm")
    case True
    then have "dd \<le> 31" using days_in_month_le [of mm yy] by linarith
    with True ymax have "strptime ?s = Inr \<lparr>year = yy, month = mm, day = dd\<rparr>"
      unfolding sp by (simp add: datetime_date_def)
    with True show ?thesis
      by (simp add: strftime_def ypad)
  next
    case False
    then have "\<exists>e. strptime ?s = Inl e"
      unfolding sp by (auto simp: datetime_date_def)
    with False show ?thesis by auto
  qed
  with dd mm yy show ?thesis by blast
qed


lemma re_set_mem:
  "(a, r) \<in> set (re_set cs s) \<Longrightarrow> \<exists>c. c \<in> set cs \<and> a = [c] \<and> s = c # r"
  by (cases s) (auto simp: re_set_def split: if_splits)

lemma re_seq_mem:
  "(x, r) \<in> set (re_seq p q s) \<Longrightarrow>
     \<exists>a b r1. (a, r1) \<in> set (p s) \<and> (b, r) \<in> set (q r1) \<and> x = a @ b"
  by (auto simp: re_seq_def)

lemma re_alt_mem:
  "(x, r) \<in> set (re_alt p q s) \<Longrightarrow> (x, r) \<in> set (p s) \<or> (x, r) \<in> set (q s)"
  by (auto simp: re_alt_def)

lemma then_dot_mem: "(a, r2) \<in> set (then_dot p s) \<Longrightarrow> (a, CHR ''.'' # r2) \<in> set (p s)"
  by (auto simp: then_dot_def dest!: re_set_mem)

lemma two_of:
  assumes "(x, r) \<in> set (re_seq (re_set as) (re_set bs) s)"
  shows "\<exists>a b. a \<in> set as \<and> b \<in> set bs \<and> x = [a, b] \<and> s = x @ r"
proof -
  from re_seq_mem [OF assms] obtain u v r1
    where u: "(u, r1) \<in> set (re_set as s)" and v: "(v, r) \<in> set (re_set bs r1)"
      and x: "x = u @ v"
    by blast
  from re_set_mem [OF u] re_set_mem [OF v] x show ?thesis by auto
qed

lemma one_of:
  assumes "(x, r) \<in> set (re_set as s)"
  shows "\<exists>a. a \<in> set as \<and> x = [a] \<and> s = x @ r"
  using re_set_mem [OF assms] by auto

lemma directive_d_mem:
  assumes "(d, r) \<in> set (directive_d s)"
  shows "s = d @ r \<and> ((\<exists>a\<in>set digits. \<exists>b\<in>set digits. d = [a, b])
                       \<or> (\<exists>a\<in>set digits. d = [a] \<or> d = [CHR '' '', a]))"
proof -
  from assms consider
      "(d, r) \<in> set (re_seq (re_set ''3'') (re_set ''01'') s)"
    | "(d, r) \<in> set (re_seq (re_set ''12'') (re_set digits) s)"
    | "(d, r) \<in> set (re_seq (re_set ''0'') (re_set digits19) s)"
    | "(d, r) \<in> set (re_set digits19 s)"
    | "(d, r) \<in> set (re_seq (re_set '' '') (re_set digits19) s)"
    unfolding directive_d_def by (auto dest!: re_alt_mem)
  then show ?thesis
  proof cases
    case 1
    from two_of [OF 1] show ?thesis by (auto simp: digits_def)
  next
    case 2
    from two_of [OF 2] show ?thesis by (auto simp: digits_def)
  next
    case 3
    from two_of [OF 3] show ?thesis by (auto simp: digits_def digits19_def)
  next
    case 4
    from one_of [OF 4] show ?thesis by (auto simp: digits_def digits19_def)
  next
    case 5
    from two_of [OF 5] show ?thesis by (auto simp: digits_def digits19_def)
  qed
qed

lemma directive_m_mem:
  assumes "(m, r) \<in> set (directive_m s)"
  shows "s = m @ r \<and> ((\<exists>a\<in>set digits. \<exists>b\<in>set digits. m = [a, b])
                       \<or> (\<exists>a\<in>set digits. m = [a]))"
proof -
  from assms consider
      "(m, r) \<in> set (re_seq (re_set ''1'') (re_set ''012'') s)"
    | "(m, r) \<in> set (re_seq (re_set ''0'') (re_set digits19) s)"
    | "(m, r) \<in> set (re_set digits19 s)"
    unfolding directive_m_def by (auto dest!: re_alt_mem)
  then show ?thesis
  proof cases
    case 1
    from two_of [OF 1] show ?thesis by (auto simp: digits_def)
  next
    case 2
    from two_of [OF 2] show ?thesis by (auto simp: digits_def digits19_def)
  next
    case 3
    from one_of [OF 3] show ?thesis by (auto simp: digits_def digits19_def)
  qed
qed

lemma directive_Y_mem:
  assumes "(y, r) \<in> set (directive_Y s)"
  shows "s = y @ r \<and> length y = 4 \<and> set y \<subseteq> set digits"
proof -
  from assms obtain a r1 t1 where a: "(a, r1) \<in> set (re_set digits s)"
    and t1: "(t1, r) \<in> set (re_seq (re_set digits) (re_seq (re_set digits) (re_set digits)) r1)"
    and y: "y = a @ t1"
    unfolding directive_Y_def by (blast dest: re_seq_mem)
  from re_seq_mem [OF t1] obtain b r2 t2 where b: "(b, r2) \<in> set (re_set digits r1)"
    and t2: "(t2, r) \<in> set (re_seq (re_set digits) (re_set digits) r2)"
    and t1': "t1 = b @ t2"
    by blast
  from one_of [OF a] one_of [OF b] two_of [OF t2] y t1' show ?thesis by auto
qed

lemma format_regex_mem:
  assumes "(d, m, y, rest) \<in> set (format_regex s)"
  shows "s = d @ ''.'' @ m @ ''.'' @ y @ rest
         \<and> ((\<exists>a\<in>set digits. \<exists>b\<in>set digits. d = [a, b])
              \<or> (\<exists>a\<in>set digits. d = [a] \<or> d = [CHR '' '', a]))
         \<and> ((\<exists>a\<in>set digits. \<exists>b\<in>set digits. m = [a, b]) \<or> (\<exists>a\<in>set digits. m = [a]))
         \<and> length y = 4 \<and> set y \<subseteq> set digits"
proof -
  from assms obtain r2 r4 where d: "(d, r2) \<in> set (then_dot directive_d s)"
    and m: "(m, r4) \<in> set (then_dot directive_m r2)"
    and y: "(y, rest) \<in> set (directive_Y r4)"
    by (auto simp: format_regex_def)
  from directive_d_mem [OF then_dot_mem [OF d]] directive_m_mem [OF then_dot_mem [OF m]]
       directive_Y_mem [OF y]
  show ?thesis by simp
qed

lemma strptime_shape:
  assumes "strptime s = Inr dt"
  shows "\<exists>d m y. s = d @ ''.'' @ m @ ''.'' @ y
         \<and> ((\<exists>a\<in>set digits. \<exists>b\<in>set digits. d = [a, b])
              \<or> (\<exists>a\<in>set digits. d = [a] \<or> d = [CHR '' '', a]))
         \<and> ((\<exists>a\<in>set digits. \<exists>b\<in>set digits. m = [a, b]) \<or> (\<exists>a\<in>set digits. m = [a]))
         \<and> length y = 4 \<and> set y \<subseteq> set digits"
proof (cases "format_regex s")
  case Nil
  with assms show ?thesis by (simp add: strptime_def)
next
  case (Cons g others)
  obtain d m y rest where g: "g = (d, m, y, rest)" by (cases g)
  from assms Cons g have rest: "rest = []"
    by (simp add: strptime_def split: if_splits)
  from Cons g have "(d, m, y, rest) \<in> set (format_regex s)" by simp
  from format_regex_mem [OF this] show ?thesis
    unfolding rest append_Nil2 by blast
qed

lemma convert_element_other:
  assumes "\<not> (\<exists>D M Y. s = D @ ''.'' @ M @ ''.'' @ Y
              \<and> ((\<exists>a\<in>set digits. \<exists>b\<in>set digits. D = [a, b])
                   \<or> (\<exists>a\<in>set digits. D = [a] \<or> D = [CHR '' '', a]))
              \<and> ((\<exists>a\<in>set digits. \<exists>b\<in>set digits. M = [a, b]) \<or> (\<exists>a\<in>set digits. M = [a]))
              \<and> length Y = 4 \<and> set Y \<subseteq> set digits)"
  shows "convert_element (Str s) = Str s"
proof (cases "strptime s")
  case (Inl e)
  then show ?thesis by simp
next
  case (Inr dt)
  from strptime_shape [OF Inr] assms show ?thesis by blast
qed

text \<open>
  Claim C4 says that a token of the shape \<open>DD.MM.YYYY\<close> is rewritten even when its day
  or month is impossible, and that every other token is left alone. Neither holds:
  \<open>31.02.2030\<close> has the shape and is left unchanged, because \<open>strptime\<close> refuses the
  date, and \<open>1.2.2030\<close> has not the shape and is rewritten to \<open>010230\<close>.
\<close>

theorem date_rewrite_counterexample:
  "convert_dates [Str ''31.02.2030'' :: unit pyval] = Inr [Str ''31.02.2030'']
   \<and> convert_dates [Str ''31.02.2030'' :: unit pyval] \<noteq> Inr [Str ''310230'']
   \<and> convert_dates [Str ''1.2.2030'' :: unit pyval] = Inr [Str ''010230'']
   \<and> convert_dates [Str ''1.2.2030'' :: unit pyval] \<noteq> Inr [Str ''1.2.2030'']"
proof -
  have a: "convert_dates [Str ''31.02.2030'' :: unit pyval] = Inr [Str ''31.02.2030'']"
    by code_simp
  have b: "convert_dates [Str ''1.2.2030'' :: unit pyval] = Inr [Str ''010230'']"
    by code_simp
  show ?thesis unfolding a b by simp
qed

text \<open>What the normalisation makes of one string, in the three cases of the claim below.\<close>

lemma convert_element_spec:
  "(\<forall>d1 d2 m1 m2 y1 y2 y3 y4.
           set [d1, d2, m1, m2, y1, y2, y3, y4] \<subseteq> set digits
           \<and> s = [d1, d2, CHR ''.'', m1, m2, CHR ''.'', y1, y2, y3, y4] \<longrightarrow>
           convert_element (Str s) =
             (let dd = 10 * digit_val d1 + digit_val d2;
                  mm = 10 * digit_val m1 + digit_val m2;
                  yy = 1000 * digit_val y1 + 100 * digit_val y2 + 10 * digit_val y3
                         + digit_val y4
              in if 1 \<le> yy \<and> 1 \<le> mm \<and> mm \<le> 12 \<and> 1 \<le> dd \<and> dd \<le> days_in_month yy mm
                 then Str [d1, d2, m1, m2, y3, y4]
                 else Str s))
      \<and> (\<forall>D M Y.
           s = D @ ''.'' @ M @ ''.'' @ Y
           \<and> ((\<exists>a\<in>set digits. \<exists>b\<in>set digits. D = [a, b])
                \<or> (\<exists>a\<in>set digits. D = [a] \<or> D = [CHR '' '', a]))
           \<and> ((\<exists>a\<in>set digits. \<exists>b\<in>set digits. M = [a, b]) \<or> (\<exists>a\<in>set digits. M = [a]))
           \<and> length Y = 4 \<and> set Y \<subseteq> set digits \<longrightarrow>
           (\<exists>dd mm yy. py_int D = Inr dd \<and> py_int M = Inr mm \<and> py_int Y = Inr yy \<and>
              convert_element (Str s) =
                (if 1 \<le> yy \<and> 1 \<le> mm \<and> mm \<le> 12 \<and> 1 \<le> dd \<and> dd \<le> days_in_month yy mm
                 then Str (pad2 dd @ pad2 mm @ drop 2 Y)
                 else Str s)))
      \<and> (\<not> (\<exists>D M Y.
           s = D @ ''.'' @ M @ ''.'' @ Y
           \<and> ((\<exists>a\<in>set digits. \<exists>b\<in>set digits. D = [a, b])
                \<or> (\<exists>a\<in>set digits. D = [a] \<or> D = [CHR '' '', a]))
           \<and> ((\<exists>a\<in>set digits. \<exists>b\<in>set digits. M = [a, b]) \<or> (\<exists>a\<in>set digits. M = [a]))
           \<and> length Y = 4 \<and> set Y \<subseteq> set digits) \<longrightarrow>
          convert_element (Str s) = Str s)"
proof (intro conjI)
  show "\<forall>d1 d2 m1 m2 y1 y2 y3 y4.
           set [d1, d2, m1, m2, y1, y2, y3, y4] \<subseteq> set digits
           \<and> s = [d1, d2, CHR ''.'', m1, m2, CHR ''.'', y1, y2, y3, y4] \<longrightarrow>
           convert_element (Str s) =
             (let dd = 10 * digit_val d1 + digit_val d2;
                  mm = 10 * digit_val m1 + digit_val m2;
                  yy = 1000 * digit_val y1 + 100 * digit_val y2 + 10 * digit_val y3
                         + digit_val y4
              in if 1 \<le> yy \<and> 1 \<le> mm \<and> mm \<le> 12 \<and> 1 \<le> dd \<and> dd \<le> days_in_month yy mm
                 then Str [d1, d2, m1, m2, y3, y4]
                 else Str s)"
  proof (intro allI impI)
    fix d1 d2 m1 m2 y1 y2 y3 y4
    assume h: "set [d1, d2, m1, m2, y1, y2, y3, y4] \<subseteq> set digits
               \<and> s = [d1, d2, CHR ''.'', m1, m2, CHR ''.'', y1, y2, y3, y4]"
    then have dg: "d1 \<in> set digits" "d2 \<in> set digits" "m1 \<in> set digits" "m2 \<in> set digits"
        "y1 \<in> set digits" "y2 \<in> set digits" "y3 \<in> set digits" "y4 \<in> set digits"
      by simp_all
    from h have s': "s = [d1, d2, CHR ''.'', m1, m2, CHR ''.'', y1, y2, y3, y4]" by simp
    show "convert_element (Str s) =
             (let dd = 10 * digit_val d1 + digit_val d2;
                  mm = 10 * digit_val m1 + digit_val m2;
                  yy = 1000 * digit_val y1 + 100 * digit_val y2 + 10 * digit_val y3
                         + digit_val y4
              in if 1 \<le> yy \<and> 1 \<le> mm \<and> mm \<le> 12 \<and> 1 \<le> dd \<and> dd \<le> days_in_month yy mm
                 then Str [d1, d2, m1, m2, y3, y4]
                 else Str s)"
      unfolding s' by (rule convert_element_exact [OF dg])
  qed
  show "\<forall>D M Y.
           s = D @ ''.'' @ M @ ''.'' @ Y
           \<and> ((\<exists>a\<in>set digits. \<exists>b\<in>set digits. D = [a, b])
                \<or> (\<exists>a\<in>set digits. D = [a] \<or> D = [CHR '' '', a]))
           \<and> ((\<exists>a\<in>set digits. \<exists>b\<in>set digits. M = [a, b]) \<or> (\<exists>a\<in>set digits. M = [a]))
           \<and> length Y = 4 \<and> set Y \<subseteq> set digits \<longrightarrow>
           (\<exists>dd mm yy. py_int D = Inr dd \<and> py_int M = Inr mm \<and> py_int Y = Inr yy \<and>
              convert_element (Str s) =
                (if 1 \<le> yy \<and> 1 \<le> mm \<and> mm \<le> 12 \<and> 1 \<le> dd \<and> dd \<le> days_in_month yy mm
                 then Str (pad2 dd @ pad2 mm @ drop 2 Y)
                 else Str s))"
  proof (intro allI impI)
    fix D M Y
    assume h: "s = D @ ''.'' @ M @ ''.'' @ Y
           \<and> ((\<exists>a\<in>set digits. \<exists>b\<in>set digits. D = [a, b])
                \<or> (\<exists>a\<in>set digits. D = [a] \<or> D = [CHR '' '', a]))
           \<and> ((\<exists>a\<in>set digits. \<exists>b\<in>set digits. M = [a, b]) \<or> (\<exists>a\<in>set digits. M = [a]))
           \<and> length Y = 4 \<and> set Y \<subseteq> set digits"
    then have s': "s = D @ ''.'' @ M @ ''.'' @ Y" by simp
    from h convert_element_shape [of D M Y]
    show "\<exists>dd mm yy. py_int D = Inr dd \<and> py_int M = Inr mm \<and> py_int Y = Inr yy \<and>
              convert_element (Str s) =
                (if 1 \<le> yy \<and> 1 \<le> mm \<and> mm \<le> 12 \<and> 1 \<le> dd \<and> dd \<le> days_in_month yy mm
                 then Str (pad2 dd @ pad2 mm @ drop 2 Y)
                 else Str s)"
      unfolding s' by blast
  qed
  show "\<not> (\<exists>D M Y.
           s = D @ ''.'' @ M @ ''.'' @ Y
           \<and> ((\<exists>a\<in>set digits. \<exists>b\<in>set digits. D = [a, b])
                \<or> (\<exists>a\<in>set digits. D = [a] \<or> D = [CHR '' '', a]))
           \<and> ((\<exists>a\<in>set digits. \<exists>b\<in>set digits. M = [a, b]) \<or> (\<exists>a\<in>set digits. M = [a]))
           \<and> length Y = 4 \<and> set Y \<subseteq> set digits) \<longrightarrow>
          convert_element (Str s) = Str s"
    using convert_element_other [of s] by blast
qed

text \<open>
  Claim C4, amended. For every input list the result has the same length and every string
  token is decided on its own, at its position.
  \<^item> A token of the exact shape \<open>DD.MM.YYYY\<close> (digits) becomes its own digits
    \<open>DDMMYY\<close> (day, month, last two digits of the year) when it is a date of the
    calendar, that is a year from 0001 on, a month from 01 to 12 and a day from 01 to the
    number of days of that month in that year; otherwise it stays as it is.
  \<^item> More generally a token \<open>day.month.year\<close>, with a day of two digits, of one digit
    or of a blank and one digit, a month of two digits or of one digit and a year of four
    digits, is rewritten when the three numbers are a date of the calendar, to the day and
    the month in two digits each and the last two digits of the year; otherwise it stays as
    it is. So the rewrite is a validating parse.
  \<^item> Every token that is not of that form stays as it is.
\<close>

theorem date_rewrite_validates:
  "\<exists>out. convert_dates elements = Inr out \<and> length out = length elements \<and>
     (\<forall>i < length elements. \<forall>s. elements ! i = Str s \<longrightarrow>
        (\<forall>d1 d2 m1 m2 y1 y2 y3 y4.
           set [d1, d2, m1, m2, y1, y2, y3, y4] \<subseteq> set digits
           \<and> s = [d1, d2, CHR ''.'', m1, m2, CHR ''.'', y1, y2, y3, y4] \<longrightarrow>
           out ! i =
             (let dd = 10 * digit_val d1 + digit_val d2;
                  mm = 10 * digit_val m1 + digit_val m2;
                  yy = 1000 * digit_val y1 + 100 * digit_val y2 + 10 * digit_val y3
                         + digit_val y4
              in if 1 \<le> yy \<and> 1 \<le> mm \<and> mm \<le> 12 \<and> 1 \<le> dd \<and> dd \<le> days_in_month yy mm
                 then Str [d1, d2, m1, m2, y3, y4]
                 else Str s))
      \<and> (\<forall>D M Y.
           s = D @ ''.'' @ M @ ''.'' @ Y
           \<and> ((\<exists>a\<in>set digits. \<exists>b\<in>set digits. D = [a, b])
                \<or> (\<exists>a\<in>set digits. D = [a] \<or> D = [CHR '' '', a]))
           \<and> ((\<exists>a\<in>set digits. \<exists>b\<in>set digits. M = [a, b]) \<or> (\<exists>a\<in>set digits. M = [a]))
           \<and> length Y = 4 \<and> set Y \<subseteq> set digits \<longrightarrow>
           (\<exists>dd mm yy. py_int D = Inr dd \<and> py_int M = Inr mm \<and> py_int Y = Inr yy \<and>
              out ! i =
                (if 1 \<le> yy \<and> 1 \<le> mm \<and> mm \<le> 12 \<and> 1 \<le> dd \<and> dd \<le> days_in_month yy mm
                 then Str (pad2 dd @ pad2 mm @ drop 2 Y)
                 else Str s)))
      \<and> (\<not> (\<exists>D M Y.
           s = D @ ''.'' @ M @ ''.'' @ Y
           \<and> ((\<exists>a\<in>set digits. \<exists>b\<in>set digits. D = [a, b])
                \<or> (\<exists>a\<in>set digits. D = [a] \<or> D = [CHR '' '', a]))
           \<and> ((\<exists>a\<in>set digits. \<exists>b\<in>set digits. M = [a, b]) \<or> (\<exists>a\<in>set digits. M = [a]))
           \<and> length Y = 4 \<and> set Y \<subseteq> set digits) \<longrightarrow>
          out ! i = Str s))"
proof -
  have el: "map convert_element elements ! i = convert_element (Str s)"
    if "i < length elements" and "elements ! i = Str s" for i s
    using that by simp
  show ?thesis
    apply (rule exI [of _ "map convert_element elements"])
    apply (intro conjI)
      apply (rule convert_dates_map)
     apply simp
    apply (intro allI impI)
    apply (simp only: el)
    apply (rule convert_element_spec)
    done
qed

lemma no_shape_prefix:
  assumes "\<not> (\<exists>a\<in>set digits. \<exists>b\<in>set digits. take 3 s = [a, b, CHR ''.''])"
      and "\<not> (\<exists>a\<in>set digits. take 2 s = [a, CHR ''.''])"
      and "\<not> (\<exists>a\<in>set digits. take 3 s = [CHR '' '', a, CHR ''.''])"
  shows "\<not> (\<exists>D M Y.
           s = D @ ''.'' @ M @ ''.'' @ Y
           \<and> ((\<exists>a\<in>set digits. \<exists>b\<in>set digits. D = [a, b])
                \<or> (\<exists>a\<in>set digits. D = [a] \<or> D = [CHR '' '', a]))
           \<and> ((\<exists>a\<in>set digits. \<exists>b\<in>set digits. M = [a, b]) \<or> (\<exists>a\<in>set digits. M = [a]))
           \<and> length Y = 4 \<and> set Y \<subseteq> set digits)"
proof (intro notI, elim exE conjE)
  fix D M Y
  assume s: "s = D @ ''.'' @ M @ ''.'' @ Y"
    and d: "(\<exists>a\<in>set digits. \<exists>b\<in>set digits. D = [a, b])
            \<or> (\<exists>a\<in>set digits. D = [a] \<or> D = [CHR '' '', a])"
  from d consider
      (two) a b where "a \<in> set digits" "b \<in> set digits" "D = [a, b]"
    | (one) a where "a \<in> set digits" "D = [a]"
    | (blank) a where "a \<in> set digits" "D = [CHR '' '', a]"
    by blast
  then show False
  proof cases
    case two
    with s assms(1) show False by simp
  next
    case one
    with s assms(2) show False by simp
  next
    case blank
    with s assms(3) show False by simp
  qed
qed

theorem date_rewrite_validates_witness:
  "\<exists>out. convert_dates [Str ''01.02.2030'', Str ''31.02.2030'', Str ''1.2.2030'',
                           Str ''1 .02.2030'', Str ''hello'' :: unit pyval] = Inr out
     \<and> out = [Str ''010230'', Str ''31.02.2030'', Str ''010230'', Str ''1 .02.2030'',
              Str ''hello'']"
proof -
  let ?els = "[Str ''01.02.2030'', Str ''31.02.2030'', Str ''1.2.2030'', Str ''1 .02.2030'',
               Str ''hello'' :: unit pyval]"
  from date_rewrite_validates [of ?els] obtain out where
    all: "convert_dates ?els = Inr out \<and> length out = length ?els \<and>
     (\<forall>i < length ?els. \<forall>s. ?els ! i = Str s \<longrightarrow>
        (\<forall>d1 d2 m1 m2 y1 y2 y3 y4.
           set [d1, d2, m1, m2, y1, y2, y3, y4] \<subseteq> set digits
           \<and> s = [d1, d2, CHR ''.'', m1, m2, CHR ''.'', y1, y2, y3, y4] \<longrightarrow>
           out ! i =
             (let dd = 10 * digit_val d1 + digit_val d2;
                  mm = 10 * digit_val m1 + digit_val m2;
                  yy = 1000 * digit_val y1 + 100 * digit_val y2 + 10 * digit_val y3
                         + digit_val y4
              in if 1 \<le> yy \<and> 1 \<le> mm \<and> mm \<le> 12 \<and> 1 \<le> dd \<and> dd \<le> days_in_month yy mm
                 then Str [d1, d2, m1, m2, y3, y4]
                 else Str s))
      \<and> (\<forall>D M Y.
           s = D @ ''.'' @ M @ ''.'' @ Y
           \<and> ((\<exists>a\<in>set digits. \<exists>b\<in>set digits. D = [a, b])
                \<or> (\<exists>a\<in>set digits. D = [a] \<or> D = [CHR '' '', a]))
           \<and> ((\<exists>a\<in>set digits. \<exists>b\<in>set digits. M = [a, b]) \<or> (\<exists>a\<in>set digits. M = [a]))
           \<and> length Y = 4 \<and> set Y \<subseteq> set digits \<longrightarrow>
           (\<exists>dd mm yy. py_int D = Inr dd \<and> py_int M = Inr mm \<and> py_int Y = Inr yy \<and>
              out ! i =
                (if 1 \<le> yy \<and> 1 \<le> mm \<and> mm \<le> 12 \<and> 1 \<le> dd \<and> dd \<le> days_in_month yy mm
                 then Str (pad2 dd @ pad2 mm @ drop 2 Y)
                 else Str s)))
      \<and> (\<not> (\<exists>D M Y.
           s = D @ ''.'' @ M @ ''.'' @ Y
           \<and> ((\<exists>a\<in>set digits. \<exists>b\<in>set digits. D = [a, b])
                \<or> (\<exists>a\<in>set digits. D = [a] \<or> D = [CHR '' '', a]))
           \<and> ((\<exists>a\<in>set digits. \<exists>b\<in>set digits. M = [a, b]) \<or> (\<exists>a\<in>set digits. M = [a]))
           \<and> length Y = 4 \<and> set Y \<subseteq> set digits) \<longrightarrow>
          out ! i = Str s))"
    ..
  note r = all [THEN conjunct1]
  note l = all [THEN conjunct2, THEN conjunct1]
  note p = all [THEN conjunct2, THEN conjunct2]
  have h0: "set [CHR ''0'', CHR ''1'', CHR ''0'', CHR ''2'', CHR ''2'', CHR ''0'', CHR ''3'',
                 CHR ''0''] \<subseteq> set digits
            \<and> ''01.02.2030'' = [CHR ''0'', CHR ''1'', CHR ''.'', CHR ''0'', CHR ''2'', CHR ''.'',
                                 CHR ''2'', CHR ''0'', CHR ''3'', CHR ''0'']"
    by (simp add: digits_def)
  have h1: "set [CHR ''3'', CHR ''1'', CHR ''0'', CHR ''2'', CHR ''2'', CHR ''0'', CHR ''3'',
                 CHR ''0''] \<subseteq> set digits
            \<and> ''31.02.2030'' = [CHR ''3'', CHR ''1'', CHR ''.'', CHR ''0'', CHR ''2'', CHR ''.'',
                                 CHR ''2'', CHR ''0'', CHR ''3'', CHR ''0'']"
    by (simp add: digits_def)
  have h2: "''1.2.2030'' = ''1'' @ ''.'' @ ''2'' @ ''.'' @ ''2030''
           \<and> ((\<exists>a\<in>set digits. \<exists>b\<in>set digits. ''1'' = [a, b])
                \<or> (\<exists>a\<in>set digits. ''1'' = [a] \<or> ''1'' = [CHR '' '', a]))
           \<and> ((\<exists>a\<in>set digits. \<exists>b\<in>set digits. ''2'' = [a, b]) \<or> (\<exists>a\<in>set digits. ''2'' = [a]))
           \<and> length ''2030'' = 4 \<and> set ''2030'' \<subseteq> set digits"
    by (simp add: digits_def)
  have h3: "\<not> (\<exists>D M Y.
           ''1 .02.2030'' = D @ ''.'' @ M @ ''.'' @ Y
           \<and> ((\<exists>a\<in>set digits. \<exists>b\<in>set digits. D = [a, b])
                \<or> (\<exists>a\<in>set digits. D = [a] \<or> D = [CHR '' '', a]))
           \<and> ((\<exists>a\<in>set digits. \<exists>b\<in>set digits. M = [a, b]) \<or> (\<exists>a\<in>set digits. M = [a]))
           \<and> length Y = 4 \<and> set Y \<subseteq> set digits)"
    using no_shape_prefix [of "''1 .02.2030''"] by (simp add: digits_def)
  have h4: "\<not> (\<exists>D M Y.
           ''hello'' = D @ ''.'' @ M @ ''.'' @ Y
           \<and> ((\<exists>a\<in>set digits. \<exists>b\<in>set digits. D = [a, b])
                \<or> (\<exists>a\<in>set digits. D = [a] \<or> D = [CHR '' '', a]))
           \<and> ((\<exists>a\<in>set digits. \<exists>b\<in>set digits. M = [a, b]) \<or> (\<exists>a\<in>set digits. M = [a]))
           \<and> length Y = 4 \<and> set Y \<subseteq> set digits)"
    using no_shape_prefix [of "''hello''"] by (simp add: digits_def)
  have i1: "py_int ''1'' = Inr 1" and i2: "py_int ''2'' = Inr 2"
    and i3: "py_int ''2030'' = Inr 2030"
    by code_simp+
  have o0: "out ! 0 = Str ''010230''"
    using p [rule_format, of 0 "''01.02.2030''", THEN conjunct1, rule_format, OF _ _ h0]
    by (simp add: digit_val_def days_in_month_def is_leap_def)
  have o1: "out ! 1 = Str ''31.02.2030''"
    using p [rule_format, of 1 "''31.02.2030''", THEN conjunct1, rule_format, OF _ _ h1]
    by (simp add: digit_val_def days_in_month_def is_leap_def)
  have o2: "out ! 2 = Str ''010230''"
    using p [rule_format, of 2 "''1.2.2030''", THEN conjunct2, THEN conjunct1, rule_format,
             OF _ _ h2]
    by (simp add: i1 i2 i3 days_in_month_def is_leap_def pad2_def digit_char_def digits_def)
  have o3: "out ! 3 = Str ''1 .02.2030''"
    using p [rule_format, of 3 "''1 .02.2030''", THEN conjunct2, THEN conjunct2, rule_format,
             OF _ _ h3]
    by simp
  have o4: "out ! 4 = Str ''hello''"
    using p [rule_format, of 4 "''hello''", THEN conjunct2, THEN conjunct2, rule_format,
             OF _ _ h4]
    by simp
  have "out = [out ! 0, out ! 1, out ! 2, out ! 3, out ! 4]"
    using l by (intro nth_equalityI) (auto simp: nth_Cons' less_Suc_eq eval_nat_numeral)
  with r o0 o1 o2 o3 o4 show ?thesis by simp
qed

end
